theory Spec2Isabelle
  imports Main
begin

section \<open>Volyent desktop: the xray-core connection manager (electron/xray-manager.js)\<close>

text \<open>
  A shallow embedding of the class \<open>XrayManager\<close>. JavaScript strings are HOL strings
  (a \<open>char\<close> stands for one code unit below 256), numbers that hold counters and ports
  are mathematical integers, an absent property is \<open>None\<close>. Every \<open>throw\<close> of the source
  is a value: \<open>Inl msg\<close> carries the \<open>message\<close> of the thrown \<open>Error\<close>.
\<close>

subsection \<open>String helpers of the JavaScript standard library\<close>

text \<open>\<open>String.prototype.startsWith\<close> and \<open>String.prototype.includes\<close> (a keyword of
  Isabelle, hence \<open>includes_str\<close>).\<close>

fun startsWith :: "string \<Rightarrow> string \<Rightarrow> bool" where
  "startsWith s [] = True"
| "startsWith [] (p # ps) = False"
| "startsWith (c # cs) (p # ps) = (c = p \<and> startsWith cs ps)"

fun includes_str :: "string \<Rightarrow> string \<Rightarrow> bool" where
  "includes_str [] t = (t = [])"
| "includes_str (c # cs) t = (startsWith (c # cs) t \<or> includes_str cs t)"

text \<open>White space as \<open>trim\<close> and \<open>parseInt\<close> see it: TAB, LF, VT, FF, CR, SP, NBSP; the line
  terminators a regular expression's dot does not match: LF and CR.\<close>

definition is_ws :: "char \<Rightarrow> bool" where
  "is_ws c = (of_char c \<in> {9, 10, 11, 12, 13, 32, 160 :: nat})"

definition is_lt :: "char \<Rightarrow> bool" where
  "is_lt c = (of_char c \<in> {10, 13 :: nat})"

definition trim :: "string \<Rightarrow> string" where
  "trim s = rev (dropWhile is_ws (rev (dropWhile is_ws s)))"

text \<open>\<open>s.split(sep)\<close> for a one-character separator.\<close>

fun split_on :: "char \<Rightarrow> string \<Rightarrow> string list" where
  "split_on sep [] = [[]]"
| "split_on sep (c # cs) =
     (if c = sep then [] # split_on sep cs
      else (case split_on sep cs of
              [] \<Rightarrow> [[c]]
            | w # ws \<Rightarrow> (c # w) # ws))"

text \<open>\<open>parseInt(s, 10)\<close>: leading white space, an optional sign, then the longest run of
  decimal digits; \<open>NaN\<close> when there is no digit.\<close>

datatype jsnum = NaN | Num int

definition is_digit :: "char \<Rightarrow> bool" where
  "is_digit c = (48 \<le> (of_char c :: nat) \<and> (of_char c :: nat) \<le> 57)"

definition digits_val :: "string \<Rightarrow> int" where
  "digits_val ds = foldl (\<lambda>a c. 10 * a + (int (of_char c) - 48)) 0 ds"

definition parseInt10 :: "string \<Rightarrow> jsnum" where
  "parseInt10 s =
     (let t = dropWhile is_ws s;
          neg = (case t of c # r \<Rightarrow> c = CHR ''-'' | [] \<Rightarrow> False);
          u = (case t of c # r \<Rightarrow> (if c = CHR ''-'' \<or> c = CHR ''+'' then r else t) | [] \<Rightarrow> t);
          z = takeWhile is_digit u
      in if z = [] then NaN else Num ((if neg then - 1 else 1) * digits_val z))"

text \<open>\<open>x || 0\<close> on a number: \<open>NaN\<close> and \<open>0\<close> are falsy.\<close>

fun or0 :: "jsnum \<Rightarrow> int" where
  "or0 NaN = 0"
| "or0 (Num n) = n"

subsection \<open>The platform: \<open>new URL\<close> and \<open>decodeURIComponent\<close>\<close>

text \<open>
  The WHATWG URL parser and the percent-decoder belong to the runtime, not to the
  repository. \<open>parseVlessUri\<close> reads five properties of the parsed URL; the protocol is
  kept beside them because the claims speak of the scheme. Both functions may throw
  (\<open>TypeError: Invalid URL\<close>, \<open>URIError: URI malformed\<close>).
\<close>

record url =
  url_protocol :: string
  url_username :: string
  url_hostname :: string
  url_port :: string
  url_searchParams :: "(string \<times> string) list"
  url_hash :: string

record platform =
  newURL :: "string \<Rightarrow> string + url"
  decodeURIComponent :: "string \<Rightarrow> string + string"

text \<open>\<open>Object.fromEntries(url.searchParams)\<close> followed by a property read: the last
  occurrence of a key wins. \<open>p || d\<close> on such a read: absent and empty are falsy.\<close>

definition param :: "(string \<times> string) list \<Rightarrow> string \<Rightarrow> string option" where
  "param ps k = map_of (rev ps) k"

fun or_else :: "string option \<Rightarrow> string \<Rightarrow> string" where
  "or_else None d = d"
| "or_else (Some v) d = (if v = [] then d else v)"

fun truthy :: "string option \<Rightarrow> bool" where
  "truthy None = False"
| "truthy (Some v) = (v \<noteq> [])"

subsection \<open>parseVlessUri\<close>

record tls_settings =
  tls_serverName :: string
  tls_allowInsecure :: bool
  tls_fingerprint :: string
  tls_alpn :: "string list option"

record reality_settings =
  serverName :: string
  fingerprint :: string
  publicKey :: string
  shortId :: string
  spiderX :: string

record ws_settings =
  ws_path :: string
  ws_headers_Host :: string

record grpc_settings =
  serviceName :: string

record tcp_settings =
  tcp_header_type :: string
  tcp_request_path :: "string list"
  tcp_request_headers_Host :: "string list"

record stream_settings =
  network :: string
  security :: "string option"
  tlsSettings :: "tls_settings option"
  realitySettings :: "reality_settings option"
  wsSettings :: "ws_settings option"
  grpcSettings :: "grpc_settings option"
  tcpSettings :: "tcp_settings option"

record user =
  user_id :: string
  encryption :: string
  flow :: "string option"

record vnext =
  address :: string
  port :: jsnum
  users :: "user list"

record outbound =
  tag :: string
  protocol :: string
  settings_vnext :: "vnext list"
  streamSettings :: stream_settings

record descriptor =
  label :: string
  outbound :: outbound

text \<open>The security branch (lines 81 to 101 of the source).\<close>

definition security_part :: "(string \<times> string) list \<Rightarrow> string \<Rightarrow> stream_settings \<Rightarrow> stream_settings" where
  "security_part params host ss =
     (if param params ''security'' = Some ''tls'' then
        ss\<lparr>security := Some ''tls'',
           tlsSettings := Some \<lparr>tls_serverName = or_else (param params ''sni'') host,
                                tls_allowInsecure = False,
                                tls_fingerprint = or_else (param params ''fp'') ''chrome'',
                                tls_alpn = (case param params ''alpn'' of
                                              None \<Rightarrow> None
                                            | Some a \<Rightarrow> (if a = [] then None
                                                        else Some (split_on CHR '','' a)))\<rparr>\<rparr>
      else if param params ''security'' = Some ''reality'' then
        ss\<lparr>security := Some ''reality'',
           realitySettings := Some \<lparr>serverName = or_else (param params ''sni'') '''',
                                    fingerprint = or_else (param params ''fp'') ''chrome'',
                                    publicKey = or_else (param params ''pbk'') '''',
                                    shortId = or_else (param params ''sid'') '''',
                                    spiderX = or_else (param params ''spx'') ''''\<rparr>\<rparr>
      else ss)"

text \<open>The transport branch (lines 103 to 123).\<close>

definition transport_part :: "(string \<times> string) list \<Rightarrow> string \<Rightarrow> stream_settings \<Rightarrow> stream_settings" where
  "transport_part params host ss =
     (if network ss = ''ws'' then
        ss\<lparr>wsSettings := Some \<lparr>ws_path = or_else (param params ''path'') ''/'',
                               ws_headers_Host = or_else (param params ''host'') host\<rparr>\<rparr>
      else if network ss = ''grpc'' then
        ss\<lparr>grpcSettings := Some \<lparr>serviceName = or_else (param params ''serviceName'') ''''\<rparr>\<rparr>
      else if network ss = ''tcp'' \<and> param params ''headerType'' = Some ''http'' then
        ss\<lparr>tcpSettings := Some \<lparr>tcp_header_type = ''http'',
                                tcp_request_path = [or_else (param params ''path'') ''/''],
                                tcp_request_headers_Host = [or_else (param params ''host'') host]\<rparr>\<rparr>
      else ss)"

text \<open>The user entry (lines 125 to 132): \<open>flow\<close> is added only when the parameter is
  truthy.\<close>

definition make_user :: "(string \<times> string) list \<Rightarrow> string \<Rightarrow> user" where
  "make_user params uuid =
     (let u = \<lparr>user_id = uuid, encryption = or_else (param params ''encryption'') ''none'', flow = None\<rparr>
      in if truthy (param params ''flow'') then u\<lparr>flow := param params ''flow''\<rparr> else u)"

text \<open>\<open>url.hash.slice(1) || 'Volyent'\<close>, the argument of \<open>decodeURIComponent\<close>.\<close>

definition hash_label :: "url \<Rightarrow> string" where
  "hash_label u = (if drop 1 (url_hash u) = [] then ''Volyent'' else drop 1 (url_hash u))"

definition parseVlessUri :: "platform \<Rightarrow> string \<Rightarrow> string + descriptor" where
  "parseVlessUri pf uri =
     (case newURL pf uri of
        Inl msg \<Rightarrow> Inl msg
      | Inr u \<Rightarrow>
          (let uuid = url_username u;
               host = url_hostname u;
               prt = parseInt10 (url_port u);
               params = url_searchParams u;
               encoded = hash_label u
           in case decodeURIComponent pf encoded of
                Inl msg \<Rightarrow> Inl msg
              | Inr lbl \<Rightarrow>
                  (let ss0 = \<lparr>network = or_else (param params ''type'') ''tcp'', security = None,
                              tlsSettings = None, realitySettings = None, wsSettings = None,
                              grpcSettings = None, tcpSettings = None\<rparr>;
                       ss1 = security_part params host ss0;
                       ss2 = transport_part params host ss1;
                       usr = make_user params uuid
                   in Inr \<lparr>label = lbl,
                           outbound = \<lparr>tag = ''proxy'', protocol = ''vless'',
                                        settings_vnext = [\<lparr>address = host, port = prt, users = [usr]\<rparr>],
                                        streamSettings = ss2\<rparr>\<rparr>)))"

subsection \<open>generateConfig\<close>

definition SOCKS_PORT :: nat where "SOCKS_PORT = 10808"
definition HTTP_PORT :: nat where "HTTP_PORT = 10809"
definition API_PORT :: nat where "API_PORT = 10085"

datatype setting = SStr string | SBool bool

record inbound =
  in_tag :: string
  in_protocol :: string
  in_listen :: string
  in_port :: nat
  in_settings :: "(string \<times> setting) list"

datatype outbound_entry = Proxy outbound | Plain string string

record rule =
  rule_type :: string
  inboundTag :: "string list option"
  outboundTag :: string
  ip :: "string list option"

text \<open>The object that \<open>generateConfig\<close> builds: \<open>log\<close>, \<open>api\<close>, \<open>policy.system\<close> and \<open>routing\<close> are
  flattened into fields, the empty \<open>stats\<close> object is left out.\<close>

record config =
  log_loglevel :: string
  api_tag :: string
  api_services :: "string list"
  policy_system :: "(string \<times> bool) list"
  inbounds :: "inbound list"
  outbounds :: "outbound_entry list"
  routing_domainStrategy :: string
  routing_rules :: "rule list"

definition config_of :: "outbound \<Rightarrow> config" where
  "config_of ob =
     \<lparr>log_loglevel = ''warning'',
      api_tag = ''api'',
      api_services = [''StatsService''],
      policy_system = [(''statsInboundUplink'', True), (''statsInboundDownlink'', True),
                       (''statsOutboundUplink'', True), (''statsOutboundDownlink'', True)],
      inbounds =
        [\<lparr>in_tag = ''socks-in'', in_protocol = ''socks'', in_listen = ''127.0.0.1'', in_port = SOCKS_PORT,
          in_settings = [(''auth'', SStr ''noauth''), (''udp'', SBool True)]\<rparr>,
         \<lparr>in_tag = ''http-in'', in_protocol = ''http'', in_listen = ''127.0.0.1'', in_port = HTTP_PORT,
          in_settings = []\<rparr>,
         \<lparr>in_tag = ''api'', in_protocol = ''dokodemo-door'', in_listen = ''127.0.0.1'', in_port = API_PORT,
          in_settings = [(''address'', SStr ''127.0.0.1'')]\<rparr>],
      outbounds = [Proxy ob, Plain ''direct'' ''freedom'', Plain ''block'' ''blackhole''],
      routing_domainStrategy = ''AsIs'',
      routing_rules =
        [\<lparr>rule_type = ''field'', inboundTag = Some [''api''], outboundTag = ''api'', ip = None\<rparr>,
         \<lparr>rule_type = ''field'', inboundTag = None, outboundTag = ''direct'',
          ip = Some [''10.0.0.0/8'', ''172.16.0.0/12'', ''192.168.0.0/16'', ''127.0.0.0/8'']\<rparr>]\<rparr>"

definition generateConfig :: "platform \<Rightarrow> string \<Rightarrow> string + config" where
  "generateConfig pf vlessUri =
     (case parseVlessUri pf vlessUri of
        Inl msg \<Rightarrow> Inl msg
      | Inr d \<Rightarrow> Inr (config_of (outbound d)))"

subsection \<open>The manager's state and its environment\<close>

text \<open>The four values of \<open>this.status\<close>: the strings \<open>disconnected\<close>, \<open>connecting\<close>,
  \<open>connected\<close> and \<open>error\<close>. A process handle is a number.\<close>

datatype status = Disconnected | Connecting | Connected | Error

record stats =
  uplink :: int
  downlink :: int

record manager =
  process :: "nat option"
  status :: status
  error :: "string option"
  activeNetworkService :: "string option"
  cumulativeStats :: stats

text \<open>The file names under \<open>os.tmpdir()\<close>.\<close>

definition CONFIG_PATH :: string where "CONFIG_PATH = ''volyent-xray-config.json''"
definition STATS_PATH :: string where "STATS_PATH = ''volyent-traffic-stats.json''"

text \<open>
  The installation: the two places \<open>getXrayPath\<close> probes with \<open>fs.existsSync\<close>, first the
  path below \<open>app.asar.unpacked\<close>, then the path below \<open>__dirname\<close>. It is fixed while the
  manager runs.
\<close>

record install =
  prodPath :: string
  devPath :: string
  existsSync :: "string \<Rightarrow> bool"

definition getXrayPath :: "install \<Rightarrow> string + string" where
  "getXrayPath inst =
     (if existsSync inst (prodPath inst) then Inr (prodPath inst)
      else if existsSync inst (devPath inst) then Inr (devPath inst)
      else Inl ''xray binary not found'')"

text \<open>
  The host commands run through \<open>execSync\<close>. \<open>RouteLookup\<close> is the \<open>route -n get default\<close>
  pipeline, \<open>ListHardwarePorts\<close> is \<open>networksetup -listallhardwareports\<close>; the six others
  are the \<open>networksetup -set...\<close> commands with the quoted service name, and for the
  proxy commands the address and the port.
\<close>

datatype command =
    RouteLookup
  | ListHardwarePorts
  | SetSocksProxy string string nat
  | SetSocksState string bool
  | SetWebProxy string string nat
  | SetWebState string bool
  | SetSecureWebProxy string string nat
  | SetSecureWebState string bool

text \<open>
  What the engine's control interface answers to \<open>xray api statsquery\<close>, after
  \<open>JSON.parse\<close>: the command or the parsing or the summation throws, or the parsed
  object has no \<open>stat\<close>, or \<open>stat\<close> lists entries whose \<open>value\<close> fields are the given
  strings.
\<close>

datatype query_reply = QueryThrows | NoStat | Stat "string list"

text \<open>
  What the spawned process does during the three seconds of the readiness wait, in
  order: chunks on its standard output and standard error, an \<open>error\<close> event, an
  \<open>exit\<close> event with its code (\<open>null\<close>, here \<open>None\<close>, when a signal ended it). When the
  list is exhausted the timer fires.
\<close>

datatype proc_event = Stdout string | Stderr string | ProcError string | Exit "int option"

datatype spawn_outcome = SpawnThrows string | Spawned nat "proc_event list"

text \<open>
  The environment's answers during one phase of a call: for each host command its
  output or \<open>None\<close> when \<open>execSync\<close> throws; for each file operation \<open>None\<close> or the
  message of the error thrown.
\<close>

record world =
  execSync :: "command \<Rightarrow> string option"
  statsquery :: "string \<Rightarrow> query_reply"
  writeFile_error :: "string \<Rightarrow> string option"
  unlink_error :: "string \<Rightarrow> string option"
  kill_error :: "nat \<Rightarrow> string option"
  spawn_outcome :: spawn_outcome

text \<open>The trace of a call: every action on the host that the code attempts, in order.
  \<open>Spawn\<close> carries the path, the arguments and the handle that \<open>spawn\<close> returned (\<open>None\<close>
  when it threw); \<open>Kill\<close> is \<open>kill('SIGTERM')\<close> on a handle; \<open>Query\<close> is the command line
  \<open>xray api statsquery\<close> with the binary's path, the port of the control inbound and
  the pattern.\<close>

datatype content = ConfigJson config | StatsJson stats

datatype effect =
    WriteFile string content
  | Unlink string
  | Spawn string "string list" "nat option"
  | Kill nat
  | Exec command
  | Query string nat string

subsection \<open>Construction and persistence of the cumulative totals\<close>

text \<open>The durable record as \<open>_loadStats\<close> finds it: no file, a file that cannot be read, a
  file that is not JSON, or the record that \<open>_saveStats\<close> wrote.\<close>

datatype stats_file = NoFile | ReadThrows | ParseThrows | Stored stats

fun loadStats :: "stats_file \<Rightarrow> stats" where
  "loadStats (Stored st) = st"
| "loadStats NoFile = \<lparr>uplink = 0, downlink = 0\<rparr>"
| "loadStats ReadThrows = \<lparr>uplink = 0, downlink = 0\<rparr>"
| "loadStats ParseThrows = \<lparr>uplink = 0, downlink = 0\<rparr>"

definition new_manager :: "stats_file \<Rightarrow> manager" where
  "new_manager f =
     \<lparr>process = None, status = Disconnected, error = None, activeNetworkService = None,
      cumulativeStats = loadStats f\<rparr>"

text \<open>\<open>fs.writeFileSync\<close>: the attempt is recorded, the error (if any) is returned.\<close>

definition writeFileSync :: "world \<Rightarrow> string \<Rightarrow> content \<Rightarrow> string option \<times> effect list" where
  "writeFileSync w path c = (writeFile_error w path, [WriteFile path c])"

text \<open>\<open>_saveStats\<close>: the \<open>catch\<close> drops the error.\<close>

definition saveStats :: "world \<Rightarrow> manager \<Rightarrow> effect list" where
  "saveStats w m =
     (case writeFileSync w STATS_PATH (StatsJson (cumulativeStats m)) of
        (None, es) \<Rightarrow> es
      | (Some msg, es) \<Rightarrow> es)"

subsection \<open>Querying the engine\<close>

text \<open>The local function \<open>queryStats\<close> of \<open>getTrafficStats\<close> and of
  \<open>_saveCumulativeFromSession\<close> (the same text in both).\<close>

definition queryStats :: "world \<Rightarrow> string \<Rightarrow> int" where
  "queryStats w pattern =
     (case statsquery w pattern of
        QueryThrows \<Rightarrow> 0
      | NoStat \<Rightarrow> 0
      | Stat vs \<Rightarrow> foldl (\<lambda>sum v. sum + or0 (parseInt10 v)) 0 vs)"

definition saveCumulativeFromSession :: "install \<Rightarrow> world \<Rightarrow> manager \<Rightarrow> manager \<times> effect list" where
  "saveCumulativeFromSession inst w m =
     (case getXrayPath inst of
        Inl msg \<Rightarrow> (m, [])
      | Inr xrayPath \<Rightarrow>
          (let m1 = m\<lparr>cumulativeStats := (cumulativeStats m)
                        \<lparr>uplink := uplink (cumulativeStats m) + queryStats w ''uplink''\<rparr>\<rparr>;
               m2 = m1\<lparr>cumulativeStats := (cumulativeStats m1)
                        \<lparr>downlink := downlink (cumulativeStats m1) + queryStats w ''downlink''\<rparr>\<rparr>
           in (m2, [Query xrayPath API_PORT ''uplink'', Query xrayPath API_PORT ''downlink'']
                   @ saveStats w m2)))"

record traffic_stats =
  ts_uplink :: int
  ts_downlink :: int
  sessionUplink :: "int option"
  sessionDownlink :: "int option"

definition getTrafficStats :: "install \<Rightarrow> world \<Rightarrow> manager \<Rightarrow> traffic_stats \<times> effect list" where
  "getTrafficStats inst w m =
     (let st = \<lparr>ts_uplink = uplink (cumulativeStats m), ts_downlink = downlink (cumulativeStats m),
                sessionUplink = None, sessionDownlink = None\<rparr>
      in if status m \<noteq> Connected \<or> process m = None then (st, [])
         else (case getXrayPath inst of
                 Inl msg \<Rightarrow> (st, [])
               | Inr xrayPath \<Rightarrow>
                   (let sessionUp = queryStats w ''uplink'';
                        sessionDown = queryStats w ''downlink''
                    in (st\<lparr>sessionUplink := Some sessionUp,
                           sessionDownlink := Some sessionDown,
                           ts_uplink := uplink (cumulativeStats m) + sessionUp,
                           ts_downlink := downlink (cumulativeStats m) + sessionDown\<rparr>,
                        [Query xrayPath API_PORT ''uplink'', Query xrayPath API_PORT ''downlink'']))))"

subsection \<open>The host's proxy settings\<close>

text \<open>The loops of \<open>getActiveNetworkService\<close>: the first line that names the device, then
  the nearest earlier line that starts with the port header; \<open>seen\<close> holds the earlier
  lines, the nearest first.\<close>

fun scan_ports :: "string \<Rightarrow> string list \<Rightarrow> string list \<Rightarrow> string" where
  "scan_ports route seen [] = ''Wi-Fi''"
| "scan_ports route seen (l # ls) =
     (if includes_str l ''Device:'' \<and> includes_str l route then
        (case find (\<lambda>h. startsWith h ''Hardware Port:'') seen of
           Some h \<Rightarrow> trim (drop 14 h)
         | None \<Rightarrow> scan_ports route (l # seen) ls)
      else scan_ports route (l # seen) ls)"

definition getActiveNetworkService :: "world \<Rightarrow> string \<times> effect list" where
  "getActiveNetworkService w =
     (case execSync w RouteLookup of
        None \<Rightarrow> (''Wi-Fi'', [Exec RouteLookup])
      | Some out \<Rightarrow>
          (if trim out = [] then (''Wi-Fi'', [Exec RouteLookup])
           else (case execSync w ListHardwarePorts of
                   None \<Rightarrow> (''Wi-Fi'', [Exec RouteLookup, Exec ListHardwarePorts])
                 | Some services \<Rightarrow>
                     (scan_ports (trim out) [] (split_on (CHR 0x0A) services),
                      [Exec RouteLookup, Exec ListHardwarePorts]))))"

text \<open>A \<open>try\<close> block of \<open>execSync\<close> calls: they run in order up to the first that throws.\<close>

fun exec_seq :: "world \<Rightarrow> command list \<Rightarrow> effect list \<times> bool" where
  "exec_seq w [] = ([], True)"
| "exec_seq w (c # cs) =
     (case execSync w c of
        None \<Rightarrow> ([Exec c], False)
      | Some out \<Rightarrow> (case exec_seq w cs of (es, ok) \<Rightarrow> (Exec c # es, ok)))"

text \<open>The six commands of \<open>setSystemProxy\<close> and the three of \<open>unsetSystemProxy\<close>, in the
  order of the source.\<close>

definition proxy_on_commands :: "string \<Rightarrow> command list" where
  "proxy_on_commands svc =
     [SetSocksProxy svc ''127.0.0.1'' SOCKS_PORT, SetSocksState svc True,
      SetWebProxy svc ''127.0.0.1'' HTTP_PORT, SetWebState svc True,
      SetSecureWebProxy svc ''127.0.0.1'' HTTP_PORT, SetSecureWebState svc True]"

definition proxy_off_commands :: "string \<Rightarrow> command list" where
  "proxy_off_commands svc =
     [SetSocksState svc False, SetWebState svc False, SetSecureWebState svc False]"

definition setSystemProxy :: "world \<Rightarrow> manager \<Rightarrow> manager \<times> effect list \<times> bool" where
  "setSystemProxy w m =
     (case getActiveNetworkService w of
        (svc, e0) \<Rightarrow>
          (case exec_seq w (proxy_on_commands svc) of
             (e1, ok) \<Rightarrow> (m\<lparr>activeNetworkService := Some svc\<rparr>, e0 @ e1, ok)))"

definition unset_service :: "manager \<Rightarrow> string" where
  "unset_service m =
     (case activeNetworkService m of
        None \<Rightarrow> ''Wi-Fi''
      | Some s \<Rightarrow> (if s = [] then ''Wi-Fi'' else s))"

definition unsetSystemProxy :: "world \<Rightarrow> manager \<Rightarrow> effect list" where
  "unsetSystemProxy w m = fst (exec_seq w (proxy_off_commands (unset_service m)))"

subsection \<open>cleanup and disconnect\<close>

text \<open>\<open>this.process.kill('SIGTERM')\<close> inside its \<open>try\<close>, and \<open>fs.unlinkSync\<close> inside its own:
  the attempt is recorded, the error dropped.\<close>

definition kill_process :: "world \<Rightarrow> nat \<Rightarrow> effect list" where
  "kill_process w p = (case kill_error w p of None \<Rightarrow> [Kill p] | Some msg \<Rightarrow> [Kill p])"

definition unlinkSync :: "world \<Rightarrow> string \<Rightarrow> effect list" where
  "unlinkSync w path = (case unlink_error w path of None \<Rightarrow> [Unlink path] | Some msg \<Rightarrow> [Unlink path])"

definition cleanup :: "install \<Rightarrow> world \<Rightarrow> manager \<Rightarrow> manager \<times> effect list" where
  "cleanup inst w m =
     (case (if process m \<noteq> None \<and> status m = Connected
            then saveCumulativeFromSession inst w m else (m, [])) of
        (m1, e1) \<Rightarrow>
          (case (case process m1 of
                   Some p \<Rightarrow> (m1\<lparr>process := None\<rparr>, kill_process w p)
                 | None \<Rightarrow> (m1, [])) of
             (m2, e2) \<Rightarrow> (m2, e1 @ e2 @ unsetSystemProxy w m2 @ unlinkSync w CONFIG_PATH)))"

datatype result = Ok | Err string

definition disconnect :: "install \<Rightarrow> world \<Rightarrow> manager \<Rightarrow> result \<times> manager \<times> effect list" where
  "disconnect inst w m =
     (case cleanup inst w m of
        (m1, es) \<Rightarrow> (Ok, m1\<lparr>status := Disconnected, error := None\<rparr>, es))"

definition getStatus :: "manager \<Rightarrow> status \<times> string option" where
  "getStatus m = (status m, error m)"

subsection \<open>connect\<close>

text \<open>The text that the \<open>exit\<close> handler puts into its error: the first match of
  \<open>/Failed to start:(.+)/\<close> in the captured output (the dot stops at a line terminator,
  the group is not empty), trimmed and cut to 150 characters; without a match the first
  200 characters of the output. \<open>fail_at s\<close>: the expression matches at the head of \<open>s\<close>;
  \<open>fail_group s\<close>: its group there.\<close>

definition fail_group :: "string \<Rightarrow> string" where
  "fail_group s = takeWhile (\<lambda>x. \<not> is_lt x) (drop (length ''Failed to start:'') s)"

definition fail_at :: "string \<Rightarrow> bool" where
  "fail_at s = (startsWith s ''Failed to start:'' \<and> fail_group s \<noteq> [])"

fun failMatch :: "string \<Rightarrow> string option" where
  "failMatch [] = None"
| "failMatch (c # cs) = (if fail_at (c # cs) then Some (fail_group (c # cs)) else failMatch cs)"

definition errMsg :: "string \<Rightarrow> string" where
  "errMsg outputBuf =
     (case failMatch outputBuf of
        Some g \<Rightarrow> take 150 (trim g)
      | None \<Rightarrow> take 200 outputBuf)"

definition has_marker :: "string \<Rightarrow> bool" where
  "has_marker msg = (includes_str msg ''started'' \<or> includes_str msg ''listening'')"

text \<open>
  The promise of the readiness wait, run over the events of the window: \<open>None\<close> when it
  resolves (a marker on the standard output, or the timer at the end of the list),
  \<open>Some msg\<close> when it rejects with \<open>Error(msg)\<close>. The first settlement counts. \<open>st\<close> is
  \<open>this.status\<close>, which the \<open>exit\<close> handler reads.
\<close>

fun wait_ready :: "status \<Rightarrow> string \<Rightarrow> proc_event list \<Rightarrow> string option" where
  "wait_ready st outputBuf [] = None"
| "wait_ready st outputBuf (Stdout msg # evs) =
     (if has_marker msg then None else wait_ready st (outputBuf @ msg) evs)"
| "wait_ready st outputBuf (Stderr msg # evs) = wait_ready st (outputBuf @ msg) evs"
| "wait_ready st outputBuf (ProcError msg # evs) = Some (''xray spawn error: '' @ msg)"
| "wait_ready st outputBuf (Exit code # evs) =
     (if code \<noteq> Some 0 \<and> st = Connecting then Some (''xray error: '' @ errMsg outputBuf)
      else wait_ready st outputBuf evs)"

text \<open>The \<open>try\<close> block of \<open>connect\<close>: \<open>Some msg\<close> when control reaches the \<open>catch\<close> with
  \<open>err.message = msg\<close>.\<close>

definition try_connect :: "install \<Rightarrow> platform \<Rightarrow> world \<Rightarrow> string \<Rightarrow> manager \<Rightarrow> string option \<times> manager \<times> effect list" where
  "try_connect inst pf w vlessUri m =
     (case generateConfig pf vlessUri of
        Inl msg \<Rightarrow> (Some msg, m, [])
      | Inr cfg \<Rightarrow>
          (case writeFileSync w CONFIG_PATH (ConfigJson cfg) of
             (Some msg, e1) \<Rightarrow> (Some msg, m, e1)
           | (None, e1) \<Rightarrow>
               (case getXrayPath inst of
                  Inl msg \<Rightarrow> (Some msg, m, e1)
                | Inr xrayPath \<Rightarrow>
                    (case spawn_outcome w of
                       SpawnThrows msg \<Rightarrow>
                         (Some msg, m, e1 @ [Spawn xrayPath [''run'', ''-config'', CONFIG_PATH] None])
                     | Spawned p evs \<Rightarrow>
                         (case wait_ready (status m) [] evs of
                            Some msg \<Rightarrow>
                              (Some msg, m\<lparr>process := Some p\<rparr>,
                               e1 @ [Spawn xrayPath [''run'', ''-config'', CONFIG_PATH] (Some p)])
                          | None \<Rightarrow>
                              (case setSystemProxy w (m\<lparr>process := Some p\<rparr>) of
                                 (m2, e2, ok) \<Rightarrow>
                                   (None, m2\<lparr>status := Connected\<rparr>,
                                    e1 @ [Spawn xrayPath [''run'', ''-config'', CONFIG_PATH] (Some p)]
                                       @ e2)))))))"

text \<open>
  \<open>if (this.process) this.disconnect()\<close> at the head of \<open>connect\<close>, and
  \<open>connect\<close>, with the environment of its three phases: \<open>w0\<close> while a previous session is
  torn down, \<open>w1\<close> during the \<open>try\<close> block, \<open>w2\<close> during the cleanup of the \<open>catch\<close>. The call
  is taken as one step: no other call of the manager runs during its \<open>await\<close>.
\<close>

definition disconnect_previous :: "install \<Rightarrow> world \<Rightarrow> manager \<Rightarrow> manager \<times> effect list" where
  "disconnect_previous inst w0 m =
     (if process m \<noteq> None
      then (case disconnect inst w0 m of (r, m', e) \<Rightarrow> (m', e))
      else (m, []))"

definition connect :: "install \<Rightarrow> platform \<Rightarrow> world \<Rightarrow> world \<Rightarrow> world \<Rightarrow> string \<Rightarrow> manager \<Rightarrow> result \<times> manager \<times> effect list" where
  "connect inst pf w0 w1 w2 vlessUri m =
     (case disconnect_previous inst w0 m of
        (m0, e0) \<Rightarrow>
          (case try_connect inst pf w1 vlessUri (m0\<lparr>status := Connecting, error := None\<rparr>) of
             (None, m2, e1) \<Rightarrow> (Ok, m2, e0 @ e1)
           | (Some msg, m2, e1) \<Rightarrow>
               (case cleanup inst w2 (m2\<lparr>status := Error, error := Some msg\<rparr>) of
                  (m4, e2) \<Rightarrow> (Err msg, m4, e0 @ e1 @ e2))))"

subsection \<open>Sequences of calls\<close>

datatype call =
    Connect string world world world
  | Disconnect world
  | GetTrafficStats world
  | GetStatus

fun do_call :: "install \<Rightarrow> platform \<Rightarrow> call \<Rightarrow> manager \<Rightarrow> manager \<times> effect list" where
  "do_call inst pf (Connect uri w0 w1 w2) m =
     (case connect inst pf w0 w1 w2 uri m of (r, m', es) \<Rightarrow> (m', es))"
| "do_call inst pf (Disconnect w) m = (case disconnect inst w m of (r, m', es) \<Rightarrow> (m', es))"
| "do_call inst pf (GetTrafficStats w) m = (m, snd (getTrafficStats inst w m))"
| "do_call inst pf GetStatus m = (m, [])"

fun run :: "install \<Rightarrow> platform \<Rightarrow> call list \<Rightarrow> manager \<Rightarrow> manager \<times> effect list" where
  "run inst pf [] m = (m, [])"
| "run inst pf (c # cs) m =
     (case do_call inst pf c m of
        (m1, e1) \<Rightarrow> (case run inst pf cs m1 of (m2, e2) \<Rightarrow> (m2, e1 @ e2)))"

subsection \<open>Reading a parse result and a configuration\<close>

definition reality_of :: "string + descriptor \<Rightarrow> reality_settings option" where
  "reality_of r = (case r of Inl msg \<Rightarrow> None | Inr d \<Rightarrow> realitySettings (streamSettings (outbound d)))"

definition ports_of :: "string + descriptor \<Rightarrow> jsnum list" where
  "ports_of r = (case r of Inl msg \<Rightarrow> [] | Inr d \<Rightarrow> map port (settings_vnext (outbound d)))"

text \<open>The user entries of the proxy outbound, the first outbound of a configuration.\<close>

definition proxy_users :: "string + config \<Rightarrow> user list" where
  "proxy_users r =
     (case r of
        Inl msg \<Rightarrow> []
      | Inr cfg \<Rightarrow>
          (case outbounds cfg of
             Proxy ob # rest \<Rightarrow> concat (map users (settings_vnext ob))
           | _ \<Rightarrow> []))"

subsection \<open>The discipline of the session fold, as a checker of traces\<close>

text \<open>
  A session opens when \<open>setSystemProxy\<close> starts (its first command is the route lookup,
  run nowhere else) and the fold is the block of the two queries and the write of the
  cumulative record. The checker accepts a trace when: the record is written only while
  a session is open, directly after an uplink and a downlink query; the next action
  after the write is the kill; a session that is open is never killed, and no process is
  spawned and no session opened, without that block before.
\<close>

datatype progress = Idle | SeenUp | SeenUpDown | Persisted

fun scan_effect :: "bool \<times> progress \<Rightarrow> effect \<Rightarrow> (bool \<times> progress) option" where
  "scan_effect (opn, k) (Query path prt pattern) =
     (if k = Persisted then None
      else if pattern = ''uplink'' then Some (opn, SeenUp)
      else if pattern = ''downlink'' \<and> k = SeenUp then Some (opn, SeenUpDown)
      else Some (opn, Idle))"
| "scan_effect (opn, k) (WriteFile path c) =
     (if k = Persisted then None
      else if path = STATS_PATH then (if opn \<and> k = SeenUpDown then Some (False, Persisted) else None)
      else Some (opn, Idle))"
| "scan_effect (opn, k) (Kill p) =
     (if k = Persisted then Some (opn, Idle) else if opn then None else Some (opn, Idle))"
| "scan_effect (opn, k) (Exec c) =
     (if k = Persisted then None
      else if c = RouteLookup then (if opn then None else Some (True, Idle))
      else Some (opn, Idle))"
| "scan_effect (opn, k) (Spawn path args h) =
     (if k = Persisted \<or> opn then None else Some (opn, Idle))"
| "scan_effect (opn, k) (Unlink path) = (if k = Persisted then None else Some (opn, Idle))"

fun scan_trace :: "bool \<times> progress \<Rightarrow> effect list \<Rightarrow> (bool \<times> progress) option" where
  "scan_trace s [] = Some s"
| "scan_trace s (e # es) = (case scan_effect s e of None \<Rightarrow> None | Some s' \<Rightarrow> scan_trace s' es)"

definition folds_once :: "bool \<Rightarrow> effect list \<Rightarrow> bool" where
  "folds_once opn es =
     (case scan_trace (opn, Idle) es of
        None \<Rightarrow> False
      | Some (o', k) \<Rightarrow> k \<noteq> Persisted)"

text \<open>The engine reports byte counts: no counter value parses to a negative number.\<close>

definition reply_nonneg :: "query_reply \<Rightarrow> bool" where
  "reply_nonneg r = (case r of Stat vs \<Rightarrow> list_all (\<lambda>v. 0 \<le> or0 (parseInt10 v)) vs | _ \<Rightarrow> True)"

definition world_nonneg :: "world \<Rightarrow> bool" where
  "world_nonneg w = (reply_nonneg (statsquery w ''uplink'') \<and> reply_nonneg (statsquery w ''downlink''))"

fun call_nonneg :: "call \<Rightarrow> bool" where
  "call_nonneg (Connect uri w0 w1 w2) = world_nonneg w0"
| "call_nonneg (Disconnect w) = world_nonneg w"
| "call_nonneg (GetTrafficStats w) = True"
| "call_nonneg GetStatus = True"

text \<open>A connected manager holds a process handle, and the engine binary that it
  spawned is installed.\<close>

definition session_inv :: "install \<Rightarrow> manager \<Rightarrow> bool" where
  "session_inv inst m = (status m \<noteq> Connected \<or> (process m \<noteq> None \<and> \<not> isl (getXrayPath inst)))"

text \<open>The events of a window that reject the promise, and the output captured so far.\<close>

fun rejecting :: "proc_event \<Rightarrow> bool" where
  "rejecting (Stdout msg) = False"
| "rejecting (Stderr msg) = False"
| "rejecting (ProcError msg) = True"
| "rejecting (Exit code) = (code \<noteq> Some 0)"

fun marker_chunk :: "proc_event \<Rightarrow> bool" where
  "marker_chunk (Stdout msg) = has_marker msg"
| "marker_chunk e = False"

fun chunk :: "proc_event \<Rightarrow> string" where
  "chunk (Stdout msg) = msg"
| "chunk (Stderr msg) = msg"
| "chunk e = []"

definition captured :: "proc_event list \<Rightarrow> string" where
  "captured evs = concat (map chunk evs)"

text \<open>The first statement of the \<open>try\<close> block of \<open>connect\<close> that throws, or the rejection of the
  readiness wait, with the message; \<open>None\<close> when the block runs to its end.\<close>

definition connect_failure :: "install \<Rightarrow> platform \<Rightarrow> world \<Rightarrow> string \<Rightarrow> string option" where
  "connect_failure inst pf w vlessUri =
     (case generateConfig pf vlessUri of
        Inl msg \<Rightarrow> Some msg
      | Inr cfg \<Rightarrow>
          (case writeFile_error w CONFIG_PATH of
             Some msg \<Rightarrow> Some msg
           | None \<Rightarrow>
               (case getXrayPath inst of
                  Inl msg \<Rightarrow> Some msg
                | Inr xrayPath \<Rightarrow>
                    (case spawn_outcome w of
                       SpawnThrows msg \<Rightarrow> Some msg
                     | Spawned p evs \<Rightarrow> wait_ready Connecting [] evs))))"

text \<open>The process handles that a trace leaves alive: those spawned (or held before) and
  not killed afterwards.\<close>

fun running :: "effect list \<Rightarrow> nat set \<Rightarrow> nat set" where
  "running [] S = S"
| "running (Spawn path args (Some p) # es) S = running es (insert p S)"
| "running (Kill p # es) S = running es (S - {p})"
| "running (e # es) S = running es S"

subsection \<open>Sample inputs\<close>

text \<open>
  The runtime's answers on the URIs used in the examples below, as Node's \<open>URL\<close> gives
  them; \<open>decodeURIComponent\<close> is the identity on a string without a percent sign. On any
  other input the table answers with the error, and no example reads it there.
\<close>

definition sample_platform :: platform where
  "sample_platform =
     \<lparr>newURL = (\<lambda>s.
        if s = ''http://u@example.com:8080'' then
          Inr \<lparr>url_protocol = ''http:'', url_username = ''u'', url_hostname = ''example.com'',
               url_port = ''8080'', url_searchParams = [], url_hash = ''''\<rparr>
        else if s = ''vless://id@example.com?security=tls#Label'' then
          Inr \<lparr>url_protocol = ''vless:'', url_username = ''id'', url_hostname = ''example.com'',
               url_port = '''', url_searchParams = [(''security'', ''tls'')], url_hash = ''#Label''\<rparr>
        else if s = ''vless://id@example.com:443?security=reality&pbk=KEY&flow=xtls-rprx-vision'' then
          Inr \<lparr>url_protocol = ''vless:'', url_username = ''id'', url_hostname = ''example.com'',
               url_port = ''443'',
               url_searchParams = [(''security'', ''reality''), (''pbk'', ''KEY''),
                                   (''flow'', ''xtls-rprx-vision'')],
               url_hash = ''''\<rparr>
        else Inl ''Invalid URL''),
      decodeURIComponent = (\<lambda>s. if CHR ''%'' \<in> set s then Inl ''URI malformed'' else Inr s)\<rparr>"

definition sample_install :: install where
  "sample_install =
     \<lparr>prodPath = ''/Applications/Volyent.app/Contents/Resources/app.asar.unpacked/electron/bin/xray'',
      devPath = ''/Applications/Volyent.app/Contents/Resources/app.asar/electron/bin/xray'',
      existsSync = (\<lambda>path. path = ''/Applications/Volyent.app/Contents/Resources/app.asar.unpacked/electron/bin/xray'')\<rparr>"

text \<open>A host where every command succeeds, the active interface is \<open>en0\<close> of the service
  \<open>Wi-Fi\<close>, and the engine prints its start line at once; and the same host with an
  engine that cannot bind its port and exits with code 23.\<close>

definition ready_world :: world where
  "ready_world =
     \<lparr>execSync = (\<lambda>c. if c = RouteLookup then Some ''en0''
                      else if c = ListHardwarePorts
                      then Some (''Hardware Port: Wi-Fi'' @ [CHR 0x0A] @ ''Device: en0'')
                      else Some ''''),
      statsquery = (\<lambda>pattern. if pattern = ''uplink'' then Stat [''1200''] else Stat [''3000'', ''400'']),
      writeFile_error = (\<lambda>path. None),
      unlink_error = (\<lambda>path. None),
      kill_error = (\<lambda>p. None),
      spawn_outcome = Spawned 7 [Stdout ''Xray 1.8.4 started'']\<rparr>"

definition failing_world :: world where
  "failing_world =
     ready_world\<lparr>spawn_outcome :=
        Spawned 8 [Stderr (''Failed to start: listen tcp 127.0.0.1:10808: bind'' @ [CHR 0x0A]),
                   Exit (Some 23)]\<rparr>"


text \<open>An engine that prints a marker line and exits with code 1 within the window; and one
  that prints its failure first, then a line without a marker, then a second failure, and
  exits with code 23.\<close>

definition listening_world :: world where
  "listening_world =
     ready_world\<lparr>spawn_outcome :=
        Spawned 9 [Stdout ''Xray 1.8.4 starting'', Stdout ''listening on 127.0.0.1:10808'',
                   Exit (Some 1)]\<rparr>"

definition crashing_world :: world where
  "crashing_world =
     ready_world\<lparr>spawn_outcome :=
        Spawned 10 [Stderr (''Failed to start: bind'' @ [CHR 0x0A]),
                    Stdout ''Xray 1.8.4 starting'',
                    Stderr ''Failed to start: other'',
                    Exit (Some 23)]\<rparr>"

section \<open>The descriptor parser and the configuration builder\<close>

lemma transport_part_keeps_reality:
  "realitySettings (transport_part params host ss) = realitySettings ss"
  by (simp add: transport_part_def)

lemma security_part_reality:
  "param params ''security'' = Some ''reality'' \<Longrightarrow>
   realitySettings (security_part params host ss) =
     Some \<lparr>serverName = or_else (param params ''sni'') '''',
           fingerprint = or_else (param params ''fp'') ''chrome'',
           publicKey = or_else (param params ''pbk'') '''',
           shortId = or_else (param params ''sid'') '''',
           spiderX = or_else (param params ''spx'') ''''\<rparr>"
  by (simp add: security_part_def)

text \<open>Only the two platform functions can make the parser fail.\<close>

lemma parseVlessUri_Inr:
  assumes "newURL pf uri = Inr u" and "decodeURIComponent pf (hash_label u) = Inr lbl"
  shows "parseVlessUri pf uri =
    Inr \<lparr>label = lbl,
         outbound = \<lparr>tag = ''proxy'', protocol = ''vless'',
           settings_vnext = [\<lparr>address = url_hostname u, port = parseInt10 (url_port u),
                              users = [make_user (url_searchParams u) (url_username u)]\<rparr>],
           streamSettings =
             transport_part (url_searchParams u) (url_hostname u)
               (security_part (url_searchParams u) (url_hostname u)
                  \<lparr>network = or_else (param (url_searchParams u) ''type'') ''tcp'', security = None,
                   tlsSettings = None, realitySettings = None, wsSettings = None,
                   grpcSettings = None, tcpSettings = None\<rparr>)\<rparr>\<rparr>"
  using assms by (simp add: parseVlessUri_def Let_def)

lemma parseVlessUri_users:
  assumes "newURL pf uri = Inr u" and "parseVlessUri pf uri = Inr d"
  shows "settings_vnext (outbound d) =
           [\<lparr>address = url_hostname u, port = parseInt10 (url_port u),
             users = [make_user (url_searchParams u) (url_username u)]\<rparr>]"
  using assms by (auto simp: parseVlessUri_def Let_def split: sum.splits)

lemma parseInt10_empty: "parseInt10 [] = NaN"
  by (simp add: parseInt10_def)

text \<open>The parser never looks at the protocol of the URL, and an empty port string
  becomes \<open>NaN\<close>, for every platform and every URI.\<close>

lemma parseVlessUri_port_absent:
  assumes "newURL pf uri = Inr u" and "url_port u = []" and "parseVlessUri pf uri = Inr d"
  shows "ports_of (parseVlessUri pf uri) = [NaN]"
  using parseVlessUri_users [OF assms(1,3)] assms(2,3)
  by (simp add: ports_of_def parseInt10_empty)

lemma parseVlessUri_ignores_protocol:
  assumes "newURL pf uri = Inr u" and "newURL pf uri' = Inr (u\<lparr>url_protocol := scheme\<rparr>)"
  shows "parseVlessUri pf uri' = parseVlessUri pf uri"
  using assms by (simp add: parseVlessUri_def hash_label_def Let_def)

lemma or_else_nonempty: "d \<noteq> [] \<Longrightarrow> or_else v d \<noteq> []"
  by (cases v) auto

lemma make_user_flow:
  "flow (make_user params uuid) = (if truthy (param params ''flow'') then param params ''flow'' else None)"
  by (simp add: make_user_def Let_def)

lemma make_user_flow_nonempty: "flow (make_user params uuid) \<noteq> Some []"
  by (cases "param params ''flow''") (auto simp: make_user_def Let_def)

lemma make_user_encryption:
  "encryption (make_user params uuid) = or_else (param params ''encryption'') ''none''"
  by (simp add: make_user_def Let_def)

text \<open>
  Claim C5, at a URI of the recognized scheme that omits the port. The claim asks for
  the default 443 or a failure; \<open>parseVlessUri\<close> does neither: \<open>parseInt('', 10)\<close> is
  \<open>NaN\<close>, and the descriptor is returned with that port.
\<close>

theorem parse_missing_port:
  "ports_of (parseVlessUri sample_platform ''vless://id@example.com?security=tls#Label'') = [NaN]"
  by (simp add: sample_platform_def hash_label_def param_def parseVlessUri_def ports_of_def
        parseInt10_def Let_def)

text \<open>
  Claim C6, as amended. For every URI that the URL constructor accepts, whose label
  decodes and whose \<open>security\<close> parameter is \<open>reality\<close>, the parser succeeds whatever
  stealth parameters are missing; a missing (absent or empty) server name, public key,
  short id or spider path becomes the empty string, and a missing fingerprint becomes
  \<open>chrome\<close>.
\<close>

theorem reality_defaults:
  assumes "newURL pf uri = Inr u"
    and "decodeURIComponent pf (hash_label u) = Inr lbl"
    and "param (url_searchParams u) ''security'' = Some ''reality''"
  shows "\<not> isl (parseVlessUri pf uri) \<and>
         reality_of (parseVlessUri pf uri) =
           Some \<lparr>serverName = or_else (param (url_searchParams u) ''sni'') '''',
                 fingerprint = or_else (param (url_searchParams u) ''fp'') ''chrome'',
                 publicKey = or_else (param (url_searchParams u) ''pbk'') '''',
                 shortId = or_else (param (url_searchParams u) ''sid'') '''',
                 spiderX = or_else (param (url_searchParams u) ''spx'') ''''\<rparr>"
  using assms
  by (simp add: parseVlessUri_Inr reality_of_def transport_part_keeps_reality security_part_reality)

theorem reality_defaults_witness:
  "reality_of (parseVlessUri sample_platform
       ''vless://id@example.com:443?security=reality&pbk=KEY&flow=xtls-rprx-vision'') =
     Some \<lparr>serverName = '''', fingerprint = ''chrome'', publicKey = ''KEY'', shortId = '''',
           spiderX = ''''\<rparr>"
  using reality_defaults [of sample_platform
      "''vless://id@example.com:443?security=reality&pbk=KEY&flow=xtls-rprx-vision''"
      "\<lparr>url_protocol = ''vless:'', url_username = ''id'', url_hostname = ''example.com'',
        url_port = ''443'',
        url_searchParams = [(''security'', ''reality''), (''pbk'', ''KEY''),
                            (''flow'', ''xtls-rprx-vision'')],
        url_hash = ''''\<rparr>" "''Volyent''"]
  by (simp add: sample_platform_def hash_label_def param_def)

text \<open>The claim as stated fails: the URI below carries no \<open>fp\<close> parameter, and the
  fingerprint of the parsed stealth settings is not the empty string.\<close>

theorem reality_fingerprint_counterexample:
  "param [(''security'', ''reality''), (''pbk'', ''KEY''), (''flow'', ''xtls-rprx-vision'')] ''fp'' = None \<and>
   map_option fingerprint (reality_of (parseVlessUri sample_platform
       ''vless://id@example.com:443?security=reality&pbk=KEY&flow=xtls-rprx-vision'')) \<noteq> Some ''''"
  by (simp add: sample_platform_def hash_label_def param_def parseVlessUri_def reality_of_def
        transport_part_def security_part_def Let_def)

text \<open>
  Claim C7, as amended. For every URI that parsed, \<open>generateConfig\<close> returns a
  configuration (it adds no failure of its own), whose proxy outbound has one user
  entry. The entry carries \<open>flow\<close> exactly when the \<open>flow\<close> parameter is set to a
  non-empty string, and then with that value; it always carries \<open>encryption\<close>, the
  parameter's value when that is set and non-empty and \<open>none\<close> otherwise. Neither is
  ever the empty string.
\<close>

theorem build_user_entry:
  assumes "newURL pf uri = Inr u" and "parseVlessUri pf uri = Inr d"
  shows "generateConfig pf uri = Inr (config_of (outbound d)) \<and>
         (\<exists>usr. proxy_users (generateConfig pf uri) = [usr] \<and>
            flow usr = (if truthy (param (url_searchParams u) ''flow'')
                        then param (url_searchParams u) ''flow'' else None) \<and>
            flow usr \<noteq> Some '''' \<and>
            encryption usr = or_else (param (url_searchParams u) ''encryption'') ''none'' \<and>
            encryption usr \<noteq> '''')"
proof -
  let ?usr = "make_user (url_searchParams u) (url_username u)"
  have cfg: "generateConfig pf uri = Inr (config_of (outbound d))"
    using assms(2) by (simp add: generateConfig_def)
  have "proxy_users (generateConfig pf uri) = [?usr]"
    using parseVlessUri_users [OF assms]
    by (simp add: cfg proxy_users_def config_of_def)
  moreover have "encryption ?usr \<noteq> ''''"
    by (simp add: make_user_encryption or_else_nonempty)
  ultimately show ?thesis
    using cfg make_user_flow make_user_flow_nonempty make_user_encryption by blast
qed

theorem build_user_entry_witness:
  "map flow (proxy_users (generateConfig sample_platform
       ''vless://id@example.com:443?security=reality&pbk=KEY&flow=xtls-rprx-vision''))
     = [Some ''xtls-rprx-vision''] \<and>
   map encryption (proxy_users (generateConfig sample_platform
       ''vless://id@example.com:443?security=reality&pbk=KEY&flow=xtls-rprx-vision''))
     = [''none'']"
proof -
  let ?uri = "''vless://id@example.com:443?security=reality&pbk=KEY&flow=xtls-rprx-vision''"
  let ?u = "\<lparr>url_protocol = ''vless:'', url_username = ''id'', url_hostname = ''example.com'',
             url_port = ''443'',
             url_searchParams = [(''security'', ''reality''), (''pbk'', ''KEY''),
                                 (''flow'', ''xtls-rprx-vision'')],
             url_hash = ''''\<rparr>"
  have u: "newURL sample_platform ?uri = Inr ?u"
    by (simp add: sample_platform_def)
  have dec: "decodeURIComponent sample_platform (hash_label ?u) = Inr ''Volyent''"
    by (simp add: sample_platform_def hash_label_def)
  from build_user_entry [OF u parseVlessUri_Inr [OF u dec]]
  show ?thesis
    by (auto simp: param_def)
qed

text \<open>The claim as stated fails: the URI below sets no \<open>encryption\<close> parameter, and the
  user entry carries \<open>encryption\<close> all the same.\<close>

theorem build_encryption_counterexample:
  "param [(''security'', ''tls'')] ''encryption'' = None \<and>
   map encryption (proxy_users (generateConfig sample_platform
       ''vless://id@example.com?security=tls#Label'')) = [''none'']"
  by (simp add: sample_platform_def hash_label_def param_def parseVlessUri_def generateConfig_def
        proxy_users_def config_of_def make_user_def Let_def)

section \<open>cleanup, disconnect and the statistics\<close>

subsection \<open>What cleanup changes and what it does\<close>

lemma saveCumulativeFromSession_fields:
  "process (fst (saveCumulativeFromSession inst w m)) = process m \<and>
   status (fst (saveCumulativeFromSession inst w m)) = status m \<and>
   error (fst (saveCumulativeFromSession inst w m)) = error m \<and>
   activeNetworkService (fst (saveCumulativeFromSession inst w m)) = activeNetworkService m"
  by (simp add: saveCumulativeFromSession_def Let_def split: sum.splits)

lemma cleanup_fields:
  "process (fst (cleanup inst w m)) = None \<and>
   status (fst (cleanup inst w m)) = status m \<and>
   error (fst (cleanup inst w m)) = error m \<and>
   activeNetworkService (fst (cleanup inst w m)) = activeNetworkService m"
  using saveCumulativeFromSession_fields [of inst w m]
  by (auto simp: cleanup_def split: prod.splits option.splits)

lemma cleanup_no_process:
  "process m = None \<Longrightarrow> cleanup inst w m = (m, unsetSystemProxy w m @ unlinkSync w CONFIG_PATH)"
  by (simp add: cleanup_def)

lemma disconnect_fields:
  "fst (disconnect inst w m) = Ok \<and>
   process (fst (snd (disconnect inst w m))) = None \<and>
   status (fst (snd (disconnect inst w m))) = Disconnected \<and>
   error (fst (snd (disconnect inst w m))) = None \<and>
   activeNetworkService (fst (snd (disconnect inst w m))) = activeNetworkService m"
  using cleanup_fields [of inst w m]
  by (auto simp: disconnect_def split: prod.splits)

lemma disconnect_again:
  assumes "process m = None" and "status m = Disconnected" and "error m = None"
  shows "fst (snd (disconnect inst w m)) = m"
  using assms by (simp add: disconnect_def cleanup_no_process)

lemma saveStats_effects:
  "saveStats w m = [WriteFile STATS_PATH (StatsJson (cumulativeStats m))]"
  by (simp add: saveStats_def writeFileSync_def split: option.splits)

lemma kill_process_effects: "kill_process w p = [Kill p]"
  by (simp add: kill_process_def split: option.splits)

lemma unlinkSync_effects: "unlinkSync w path = [Unlink path]"
  by (simp add: unlinkSync_def split: option.splits)

lemma unsetSystemProxy_service:
  "activeNetworkService m' = activeNetworkService m \<Longrightarrow> unsetSystemProxy w m' = unsetSystemProxy w m"
  by (simp add: unsetSystemProxy_def unset_service_def)

lemma cleanup_effects:
  "snd (cleanup inst w m) =
     (if process m \<noteq> None \<and> status m = Connected
      then snd (saveCumulativeFromSession inst w m) else [])
     @ (case process m of Some p \<Rightarrow> [Kill p] | None \<Rightarrow> [])
     @ unsetSystemProxy w (fst (cleanup inst w m)) @ [Unlink CONFIG_PATH]"
  using saveCumulativeFromSession_fields [of inst w m]
  by (auto simp: cleanup_def kill_process_effects unlinkSync_effects split: prod.splits option.splits)

lemma saveCumulativeFromSession_found:
  assumes "getXrayPath inst = Inr path"
  shows "saveCumulativeFromSession inst w m =
           (m\<lparr>cumulativeStats := \<lparr>uplink = uplink (cumulativeStats m) + queryStats w ''uplink'',
                                  downlink = downlink (cumulativeStats m) + queryStats w ''downlink''\<rparr>\<rparr>,
            [Query path API_PORT ''uplink'', Query path API_PORT ''downlink'',
             WriteFile STATS_PATH (StatsJson
               \<lparr>uplink = uplink (cumulativeStats m) + queryStats w ''uplink'',
                downlink = downlink (cumulativeStats m) + queryStats w ''downlink''\<rparr>)])"
  using assms by (simp add: saveCumulativeFromSession_def saveStats_effects Let_def)

lemma cleanup_connected:
  assumes "status m = Connected" and "process m = Some p" and "getXrayPath inst = Inr path"
  shows "cleanup inst w m =
           (m\<lparr>cumulativeStats := \<lparr>uplink = uplink (cumulativeStats m) + queryStats w ''uplink'',
                                  downlink = downlink (cumulativeStats m) + queryStats w ''downlink''\<rparr>,
              process := None\<rparr>,
            [Query path API_PORT ''uplink'', Query path API_PORT ''downlink'',
             WriteFile STATS_PATH (StatsJson
               \<lparr>uplink = uplink (cumulativeStats m) + queryStats w ''uplink'',
                downlink = downlink (cumulativeStats m) + queryStats w ''downlink''\<rparr>),
             Kill p] @ unsetSystemProxy w m @ [Unlink CONFIG_PATH])"
proof -
  have "unsetSystemProxy w
          (m\<lparr>cumulativeStats := \<lparr>uplink = uplink (cumulativeStats m) + queryStats w ''uplink'',
                                  downlink = downlink (cumulativeStats m) + queryStats w ''downlink''\<rparr>,
              process := None\<rparr>) = unsetSystemProxy w m"
    by (rule unsetSystemProxy_service) simp
  then show ?thesis
    using assms
    by (simp add: cleanup_def saveCumulativeFromSession_found kill_process_effects unlinkSync_effects)
qed

lemma cleanup_idle:
  assumes "status m \<noteq> Connected"
  shows "cleanup inst w m =
           (m\<lparr>process := None\<rparr>,
            (case process m of Some p \<Rightarrow> [Kill p] | None \<Rightarrow> [])
            @ unsetSystemProxy w m @ [Unlink CONFIG_PATH])"
proof -
  have "unsetSystemProxy w (m\<lparr>process := None\<rparr>) = unsetSystemProxy w m"
    by (rule unsetSystemProxy_service) simp
  then show ?thesis
    using assms
    by (cases "process m") (simp_all add: cleanup_def kill_process_effects unlinkSync_effects)
qed

lemma exec_seq_Exec: "e \<in> set (fst (exec_seq w cs)) \<Longrightarrow> \<exists>c. e = Exec c"
  by (induction cs arbitrary: e) (auto split: option.splits prod.splits)

lemma exec_seq_subset: "e \<in> set (fst (exec_seq w cs)) \<Longrightarrow> \<exists>c\<in>set cs. e = Exec c"
  by (induction cs arbitrary: e) (auto split: option.splits prod.splits)

lemma unsetSystemProxy_Exec: "e \<in> set (unsetSystemProxy w m) \<Longrightarrow> \<exists>c. e = Exec c"
  unfolding unsetSystemProxy_def by (rule exec_seq_Exec)

lemma unsetSystemProxy_first:
  "\<exists>rest. unsetSystemProxy w m = Exec (SetSocksState (unset_service m) False) # rest"
  by (simp add: unsetSystemProxy_def proxy_off_commands_def split: option.splits prod.splits)

lemma exec_seq_all:
  "\<forall>c\<in>set cs. execSync w c \<noteq> None \<Longrightarrow> exec_seq w cs = (map Exec cs, True)"
  by (induction cs) auto



subsection \<open>Process handles along a trace\<close>

lemma running_append: "running (es @ es') S = running es' (running es S)"
  by (induction es S rule: running.induct) auto

lemma running_no_proc:
  "\<forall>e\<in>set es. \<not> (\<exists>path args p. e = Spawn path args (Some p)) \<and> \<not> (\<exists>p. e = Kill p) \<Longrightarrow>
   running es S = S"
  by (induction es S rule: running.induct) auto

lemma running_Exec_only: "\<forall>e\<in>set es. \<exists>c. e = Exec c \<Longrightarrow> running es S = S"
  by (rule running_no_proc) blast

lemma running_unset: "running (unsetSystemProxy w m) S = S"
  by (rule running_Exec_only) (blast dest: unsetSystemProxy_Exec)

lemma running_fold: "running (snd (saveCumulativeFromSession inst w m)) S = S"
  by (simp add: saveCumulativeFromSession_def saveStats_effects Let_def split: sum.splits)

lemma running_cleanup: "running (snd (cleanup inst w m)) (set_option (process m)) = {}"
  by (cases "process m") (simp_all add: cleanup_effects running_append running_unset running_fold)

subsection \<open>A failing write of the durable record changes nothing\<close>

lemma exec_seq_writeFile_error:
  "exec_seq (w\<lparr>writeFile_error := werr\<rparr>) cs = exec_seq w cs"
  by (induction cs) (auto split: option.splits)

lemma queryStats_writeFile_error:
  "queryStats (w\<lparr>writeFile_error := werr\<rparr>) pattern = queryStats w pattern"
  by (simp add: queryStats_def)

lemma saveStats_writeFile_error:
  "saveStats (w\<lparr>writeFile_error := werr\<rparr>) m = saveStats w m"
  by (simp add: saveStats_effects)

lemma kill_process_writeFile_error:
  "kill_process (w\<lparr>writeFile_error := werr\<rparr>) p = kill_process w p"
  by (simp add: kill_process_def)

lemma unlinkSync_writeFile_error:
  "unlinkSync (w\<lparr>writeFile_error := werr\<rparr>) path = unlinkSync w path"
  by (simp add: unlinkSync_def)

lemma unsetSystemProxy_writeFile_error:
  "unsetSystemProxy (w\<lparr>writeFile_error := werr\<rparr>) m = unsetSystemProxy w m"
  by (simp only: unsetSystemProxy_def exec_seq_writeFile_error)

lemma saveCumulativeFromSession_writeFile_error:
  "saveCumulativeFromSession inst (w\<lparr>writeFile_error := werr\<rparr>) m = saveCumulativeFromSession inst w m"
  unfolding saveCumulativeFromSession_def queryStats_writeFile_error saveStats_writeFile_error
  by (rule refl)

lemma cleanup_writeFile_error:
  "cleanup inst (w\<lparr>writeFile_error := werr\<rparr>) m = cleanup inst w m"
  unfolding cleanup_def saveCumulativeFromSession_writeFile_error kill_process_writeFile_error
    unsetSystemProxy_writeFile_error unlinkSync_writeFile_error
  by (rule refl)

lemma disconnect_writeFile_error:
  "disconnect inst (w\<lparr>writeFile_error := werr\<rparr>) m = disconnect inst w m"
  unfolding disconnect_def cleanup_writeFile_error by (rule refl)

subsection \<open>The sample session\<close>

lemma sample_queryStats:
  "queryStats ready_world ''uplink'' = 1200 \<and> queryStats ready_world ''downlink'' = 3400"
  by (simp add: ready_world_def queryStats_def parseInt10_def is_ws_def is_digit_def
        digits_val_def Let_def)

lemma sample_getXrayPath: "getXrayPath sample_install = Inr (prodPath sample_install)"
  by (simp add: getXrayPath_def sample_install_def)

lemma sample_disconnect_state:
  "fst (snd (disconnect sample_install ready_world
       \<lparr>process = Some 7, status = Connected, error = None, activeNetworkService = Some ''Wi-Fi'',
        cumulativeStats = \<lparr>uplink = 10, downlink = 20\<rparr>\<rparr>)) =
     \<lparr>process = None, status = Disconnected, error = None, activeNetworkService = Some ''Wi-Fi'',
      cumulativeStats = \<lparr>uplink = 1210, downlink = 3420\<rparr>\<rparr>"
  by (simp add: disconnect_def cleanup_def saveCumulativeFromSession_def sample_getXrayPath
        sample_queryStats Let_def)

subsection \<open>The claims on disconnect, the statistics and persistence\<close>

text \<open>
  Claim C3. In every manager state and whatever the host answers, \<open>disconnect\<close> returns
  the success result, leaves the status \<open>disconnected\<close> and the error \<open>null\<close>; a second
  \<open>disconnect\<close> (under any answers of the host) returns success again and leaves the
  manager as the first left it; and on a freshly constructed manager \<open>disconnect\<close>
  changes nothing.
\<close>

theorem disconnect_idempotent:
  "fst (disconnect inst w m) = Ok \<and>
   status (fst (snd (disconnect inst w m))) = Disconnected \<and>
   error (fst (snd (disconnect inst w m))) = None \<and>
   fst (disconnect inst w' (fst (snd (disconnect inst w m)))) = Ok \<and>
   fst (snd (disconnect inst w' (fst (snd (disconnect inst w m))))) = fst (snd (disconnect inst w m)) \<and>
   fst (snd (disconnect inst w (new_manager f))) = new_manager f"
  using disconnect_fields [of inst w m] disconnect_fields [of inst w' "fst (snd (disconnect inst w m))"]
  by (simp add: disconnect_again new_manager_def)

theorem disconnect_idempotent_witness:
  "fst (snd (disconnect sample_install failing_world
       \<lparr>process = None, status = Disconnected, error = None, activeNetworkService = Some ''Wi-Fi'',
        cumulativeStats = \<lparr>uplink = 1210, downlink = 3420\<rparr>\<rparr>)) =
     \<lparr>process = None, status = Disconnected, error = None, activeNetworkService = Some ''Wi-Fi'',
      cumulativeStats = \<lparr>uplink = 1210, downlink = 3420\<rparr>\<rparr>"
  using disconnect_idempotent [of sample_install ready_world
      "\<lparr>process = Some 7, status = Connected, error = None, activeNetworkService = Some ''Wi-Fi'',
        cumulativeStats = \<lparr>uplink = 10, downlink = 20\<rparr>\<rparr>" failing_world NoFile]
  by (simp add: sample_disconnect_state)

lemma foldl_sum:
  "foldl (\<lambda>sum v. sum + f v) a vs = a + sum_list (map f vs)" for f :: "'a \<Rightarrow> int"
  by (induction vs arbitrary: a) simp_all

lemma queryStats_sum:
  "queryStats w pattern =
     (case statsquery w pattern of
        QueryThrows \<Rightarrow> 0
      | NoStat \<Rightarrow> 0
      | Stat vs \<Rightarrow> sum_list (map (\<lambda>v. or0 (parseInt10 v)) vs))"
  by (simp add: queryStats_def foldl_sum split: query_reply.splits)

text \<open>
  Claim C9, as amended. \<open>getTrafficStats\<close> always returns the two totals \<open>uplink\<close> and
  \<open>downlink\<close>. The two session counters are present exactly when the manager is
  connected, holds a process handle and finds the engine binary; they are then the sums
  that the live engine reports (0 for a query that fails), and the totals are the stored
  cumulative totals plus these sums. In every other state the record holds the stored
  cumulative totals and no session counter. The sum for a pattern adds the parsed
  \<open>value\<close> of every entry that the engine lists (an entry that is not a number counts
  0).
\<close>

theorem stats_record:
  "fst (getTrafficStats inst w m) =
     (if status m = Connected \<and> process m \<noteq> None \<and> \<not> isl (getXrayPath inst)
      then \<lparr>ts_uplink = uplink (cumulativeStats m) + queryStats w ''uplink'',
            ts_downlink = downlink (cumulativeStats m) + queryStats w ''downlink'',
            sessionUplink = Some (queryStats w ''uplink''),
            sessionDownlink = Some (queryStats w ''downlink'')\<rparr>
      else \<lparr>ts_uplink = uplink (cumulativeStats m), ts_downlink = downlink (cumulativeStats m),
            sessionUplink = None, sessionDownlink = None\<rparr>) \<and>
   queryStats w pattern =
     (case statsquery w pattern of
        QueryThrows \<Rightarrow> 0
      | NoStat \<Rightarrow> 0
      | Stat vs \<Rightarrow> sum_list (map (\<lambda>v. or0 (parseInt10 v)) vs))"
proof
  show "fst (getTrafficStats inst w m) =
     (if status m = Connected \<and> process m \<noteq> None \<and> \<not> isl (getXrayPath inst)
      then \<lparr>ts_uplink = uplink (cumulativeStats m) + queryStats w ''uplink'',
            ts_downlink = downlink (cumulativeStats m) + queryStats w ''downlink'',
            sessionUplink = Some (queryStats w ''uplink''),
            sessionDownlink = Some (queryStats w ''downlink'')\<rparr>
      else \<lparr>ts_uplink = uplink (cumulativeStats m), ts_downlink = downlink (cumulativeStats m),
            sessionUplink = None, sessionDownlink = None\<rparr>)"
    by (auto simp: getTrafficStats_def Let_def split: sum.splits)
  show "queryStats w pattern =
     (case statsquery w pattern of
        QueryThrows \<Rightarrow> 0
      | NoStat \<Rightarrow> 0
      | Stat vs \<Rightarrow> sum_list (map (\<lambda>v. or0 (parseInt10 v)) vs))"
    by (rule queryStats_sum)
qed

theorem stats_record_witness:
  "fst (getTrafficStats sample_install ready_world
       \<lparr>process = Some 7, status = Connected, error = None, activeNetworkService = Some ''Wi-Fi'',
        cumulativeStats = \<lparr>uplink = 10, downlink = 20\<rparr>\<rparr>) =
     \<lparr>ts_uplink = 1210, ts_downlink = 3420, sessionUplink = Some 1200, sessionDownlink = Some 3400\<rparr>"
  using stats_record [of sample_install ready_world
       "\<lparr>process = Some 7, status = Connected, error = None, activeNetworkService = Some ''Wi-Fi'',
        cumulativeStats = \<lparr>uplink = 10, downlink = 20\<rparr>\<rparr>"]
  by (simp add: sample_queryStats sample_getXrayPath)

text \<open>The claim as stated fails: the record returned by a freshly constructed (not
  connected) manager has neither session counter.\<close>

theorem stats_disconnected_counterexample:
  "sessionUplink (fst (getTrafficStats sample_install ready_world (new_manager NoFile))) = None \<and>
   sessionDownlink (fst (getTrafficStats sample_install ready_world (new_manager NoFile))) = None"
  by (simp add: getTrafficStats_def new_manager_def Let_def)

text \<open>
  Claim C10. Construction is total; when the durable record is missing, cannot be read
  or is not JSON, the cumulative totals start at zero (a stored record is taken as it
  is). A failing write of the record after a fold is dropped: the trace, the manager and
  the result of \<open>_saveStats\<close>, of the fold and of \<open>disconnect\<close> are the same whatever error
  the write throws, and \<open>disconnect\<close> still returns success.
\<close>

theorem persistence_failures_silent:
  "cumulativeStats (new_manager NoFile) = \<lparr>uplink = 0, downlink = 0\<rparr> \<and>
   cumulativeStats (new_manager ReadThrows) = \<lparr>uplink = 0, downlink = 0\<rparr> \<and>
   cumulativeStats (new_manager ParseThrows) = \<lparr>uplink = 0, downlink = 0\<rparr> \<and>
   cumulativeStats (new_manager (Stored st)) = st \<and>
   saveStats (w\<lparr>writeFile_error := werr\<rparr>) m = [WriteFile STATS_PATH (StatsJson (cumulativeStats m))] \<and>
   saveCumulativeFromSession inst (w\<lparr>writeFile_error := werr\<rparr>) m = saveCumulativeFromSession inst w m \<and>
   disconnect inst (w\<lparr>writeFile_error := werr\<rparr>) m = disconnect inst w m \<and>
   fst (disconnect inst (w\<lparr>writeFile_error := werr\<rparr>) m) = Ok"
  using disconnect_fields [of inst w m]
  by (simp add: new_manager_def saveStats_effects saveCumulativeFromSession_writeFile_error
        disconnect_writeFile_error)

theorem persistence_failures_silent_witness:
  "fst (disconnect sample_install (ready_world\<lparr>writeFile_error := (\<lambda>path. Some ''ENOSPC'')\<rparr>)
       \<lparr>process = Some 7, status = Connected, error = None, activeNetworkService = Some ''Wi-Fi'',
        cumulativeStats = \<lparr>uplink = 10, downlink = 20\<rparr>\<rparr>) = Ok \<and>
   fst (snd (disconnect sample_install (ready_world\<lparr>writeFile_error := (\<lambda>path. Some ''ENOSPC'')\<rparr>)
       \<lparr>process = Some 7, status = Connected, error = None, activeNetworkService = Some ''Wi-Fi'',
        cumulativeStats = \<lparr>uplink = 10, downlink = 20\<rparr>\<rparr>)) =
     \<lparr>process = None, status = Disconnected, error = None, activeNetworkService = Some ''Wi-Fi'',
      cumulativeStats = \<lparr>uplink = 1210, downlink = 3420\<rparr>\<rparr>"
  using persistence_failures_silent [where inst = sample_install and w = ready_world
      and st = "\<lparr>uplink = 0, downlink = 0\<rparr>"
      and werr = "\<lambda>path. Some ''ENOSPC''"
      and m = "\<lparr>process = Some 7, status = Connected, error = None,
                activeNetworkService = Some ''Wi-Fi'',
                cumulativeStats = \<lparr>uplink = 10, downlink = 20\<rparr>\<rparr>"]
  by (simp add: sample_disconnect_state disconnect_fields)

section \<open>connect\<close>

subsection \<open>The teardown of a previous session and the start of a new one\<close>

lemma disconnect_previous_fields:
  "process (fst (disconnect_previous inst w m)) = None \<and>
   activeNetworkService (fst (disconnect_previous inst w m)) = activeNetworkService m"
  using disconnect_fields [of inst w m]
  by (auto simp: disconnect_previous_def split: prod.splits)

lemma running_disconnect_previous:
  "running (snd (disconnect_previous inst w m)) (set_option (process m)) = {}"
  using running_cleanup [of inst w m]
  by (auto simp: disconnect_previous_def disconnect_def split: prod.splits)

lemma getActiveNetworkService_Exec:
  "e \<in> set (snd (getActiveNetworkService w)) \<Longrightarrow> \<exists>c. e = Exec c"
  by (auto simp: getActiveNetworkService_def split: option.splits if_splits)

lemma setSystemProxy_Exec:
  "e \<in> set (fst (snd (setSystemProxy w m))) \<Longrightarrow> \<exists>c. e = Exec c"
  using getActiveNetworkService_Exec [of e w]
    exec_seq_Exec [of e w "proxy_on_commands (fst (getActiveNetworkService w))"]
  by (auto simp: setSystemProxy_def split: prod.splits)

lemma setSystemProxy_fields:
  "process (fst (setSystemProxy w m)) = process m \<and>
   status (fst (setSystemProxy w m)) = status m \<and>
   error (fst (setSystemProxy w m)) = error m \<and>
   cumulativeStats (fst (setSystemProxy w m)) = cumulativeStats m"
  by (simp add: setSystemProxy_def split: prod.splits)

lemma running_setSystemProxy: "running (fst (snd (setSystemProxy w m))) S = S"
proof (rule running_Exec_only, rule ballI)
  fix e
  assume "e \<in> set (fst (snd (setSystemProxy w m)))"
  then show "\<exists>c. e = Exec c" by (rule setSystemProxy_Exec)
qed

lemma try_connect_failure:
  "status m = Connecting \<Longrightarrow> fst (try_connect inst pf w uri m) = connect_failure inst pf w uri"
  by (auto simp: try_connect_def connect_failure_def writeFileSync_def
      split: sum.splits option.splits spawn_outcome.splits prod.splits)

lemma try_connect_failed_state:
  assumes "try_connect inst pf w uri m = (Some msg, m2, e1)"
  shows "status m2 = status m \<and> error m2 = error m \<and>
         activeNetworkService m2 = activeNetworkService m \<and>
         cumulativeStats m2 = cumulativeStats m \<and>
         (process m = None \<longrightarrow> running e1 {} = set_option (process m2))"
  using assms
  by (auto simp: try_connect_def writeFileSync_def running_append
      split: sum.splits option.splits spawn_outcome.splits prod.splits)

lemma connect_failure_None:
  assumes "connect_failure inst pf w uri = None"
  shows "\<exists>cfg path p evs. generateConfig pf uri = Inr cfg \<and> writeFile_error w CONFIG_PATH = None \<and>
           getXrayPath inst = Inr path \<and> spawn_outcome w = Spawned p evs \<and>
           wait_ready Connecting [] evs = None"
  using assms
  by (auto simp: connect_failure_def split: sum.splits option.splits spawn_outcome.splits)

lemma try_connect_ready:
  assumes "generateConfig pf uri = Inr cfg" and "writeFile_error w CONFIG_PATH = None"
    and "getXrayPath inst = Inr path" and "spawn_outcome w = Spawned p evs"
    and "wait_ready (status m) [] evs = None"
  shows "try_connect inst pf w uri m =
           (None, (fst (setSystemProxy w (m\<lparr>process := Some p\<rparr>)))\<lparr>status := Connected\<rparr>,
            [WriteFile CONFIG_PATH (ConfigJson cfg),
             Spawn path [''run'', ''-config'', CONFIG_PATH] (Some p)]
            @ fst (snd (setSystemProxy w (m\<lparr>process := Some p\<rparr>))))"
  using assms by (simp add: try_connect_def writeFileSync_def split: prod.splits)


lemma try_connect_ok_state:
  assumes "status m = Connecting" and "connect_failure inst pf w uri = None"
  shows "\<exists>m2 e1 p evs. try_connect inst pf w uri m = (None, m2, e1) \<and>
           status m2 = Connected \<and> error m2 = error m \<and>
           cumulativeStats m2 = cumulativeStats m \<and>
           spawn_outcome w = Spawned p evs \<and> process m2 = Some p \<and> running e1 {} = {p}"
proof -
  from connect_failure_None [OF assms(2)] obtain cfg path p evs where
    f: "generateConfig pf uri = Inr cfg" "writeFile_error w CONFIG_PATH = None"
       "getXrayPath inst = Inr path" "spawn_outcome w = Spawned p evs"
       "wait_ready Connecting [] evs = None"
    by blast
  from f(5) assms(1) have "wait_ready (status m) [] evs = None" by simp
  from try_connect_ready [OF f(1-4) this] show ?thesis
    using setSystemProxy_fields [of w "m\<lparr>process := Some p\<rparr>"] f(4)
    by (simp add: running_setSystemProxy)
qed

subsection \<open>The readiness wait\<close>

lemma wait_ready_stuck:
  "\<forall>e\<in>set pre. \<not> rejecting e \<and> \<not> marker_chunk e \<Longrightarrow>
   wait_ready st buf (pre @ evs) = wait_ready st (buf @ captured pre) evs"
proof (induction pre arbitrary: buf)
  case Nil
  then show ?case by (simp add: captured_def)
next
  case (Cons e pre)
  then show ?case by (cases e) (auto simp: captured_def)
qed

lemma wait_ready_no_reject:
  "\<forall>e\<in>set evs. \<not> rejecting e \<Longrightarrow> wait_ready st buf evs = None"
proof (induction evs arbitrary: buf)
  case Nil
  then show ?case by simp
next
  case (Cons e evs)
  then show ?case by (cases e) auto
qed

lemma wait_ready_marker:
  assumes "\<forall>e\<in>set pre. \<not> rejecting e" and "has_marker msg"
  shows "wait_ready st buf (pre @ Stdout msg # post) = None"
  using assms
proof (induction pre arbitrary: buf)
  case Nil
  then show ?case by simp
next
  case (Cons e pre)
  then show ?case by (cases e) auto
qed

lemma wait_ready_None_cases:
  assumes "wait_ready Connecting buf evs = None"
  shows "(\<exists>pre msg post. evs = pre @ Stdout msg # post \<and> has_marker msg \<and> (\<forall>e\<in>set pre. \<not> rejecting e))
         \<or> (\<forall>e\<in>set evs. \<not> rejecting e)"
  using assms
proof (induction evs arbitrary: buf)
  case Nil
  then show ?case by simp
next
  case (Cons e evs)
  show ?case
  proof (cases "marker_chunk e")
    case True
    then obtain msg where "e = Stdout msg" "has_marker msg" by (cases e) auto
    then have "e # evs = [] @ Stdout msg # evs \<and> has_marker msg \<and> (\<forall>x\<in>set []. \<not> rejecting x)"
      by simp
    then show ?thesis by blast
  next
    case False
    with Cons.prems have nr: "\<not> rejecting e" and rest: "\<exists>b. wait_ready Connecting b evs = None"
      by (cases e; auto split: if_splits)+
    from rest obtain b where "wait_ready Connecting b evs = None" ..
    from Cons.IH [OF this] show ?thesis
    proof
      assume "\<exists>pre msg post. evs = pre @ Stdout msg # post \<and> has_marker msg \<and> (\<forall>e\<in>set pre. \<not> rejecting e)"
      then obtain pre msg post where "evs = pre @ Stdout msg # post" "has_marker msg" "\<forall>e\<in>set pre. \<not> rejecting e"
        by blast
      with nr have "e # evs = (e # pre) @ Stdout msg # post \<and> has_marker msg \<and> (\<forall>x\<in>set (e # pre). \<not> rejecting x)"
        by simp
      then show ?thesis by blast
    next
      assume "\<forall>e\<in>set evs. \<not> rejecting e"
      with nr show ?thesis by simp
    qed
  qed
qed

lemma wait_ready_None_iff:
  "wait_ready Connecting buf evs = None \<longleftrightarrow>
     (\<exists>pre msg post. evs = pre @ Stdout msg # post \<and> has_marker msg \<and> (\<forall>e\<in>set pre. \<not> rejecting e))
     \<or> (\<forall>e\<in>set evs. \<not> rejecting e)"
proof
  assume "wait_ready Connecting buf evs = None"
  then show "(\<exists>pre msg post. evs = pre @ Stdout msg # post \<and> has_marker msg \<and> (\<forall>e\<in>set pre. \<not> rejecting e))
     \<or> (\<forall>e\<in>set evs. \<not> rejecting e)"
    by (rule wait_ready_None_cases)
next
  assume "(\<exists>pre msg post. evs = pre @ Stdout msg # post \<and> has_marker msg \<and> (\<forall>e\<in>set pre. \<not> rejecting e))
     \<or> (\<forall>e\<in>set evs. \<not> rejecting e)"
  then show "wait_ready Connecting buf evs = None"
  proof
    assume "\<exists>pre msg post. evs = pre @ Stdout msg # post \<and> has_marker msg \<and> (\<forall>e\<in>set pre. \<not> rejecting e)"
    then obtain pre msg post where
      e: "evs = pre @ Stdout msg # post" and m: "has_marker msg" and r: "\<forall>e\<in>set pre. \<not> rejecting e"
      by blast
    show ?thesis unfolding e using r m by (rule wait_ready_marker)
  next
    assume "\<forall>e\<in>set evs. \<not> rejecting e"
    then show ?thesis by (rule wait_ready_no_reject)
  qed
qed

lemma wait_ready_exit:
  assumes "\<forall>e\<in>set pre. \<not> rejecting e \<and> \<not> marker_chunk e" and "code \<noteq> Some 0"
  shows "wait_ready Connecting buf (pre @ Exit code # post) = Some (''xray error: '' @ errMsg (buf @ captured pre))"
  using assms by (simp add: wait_ready_stuck)

subsection \<open>The diagnostic of a failed start\<close>

lemma startsWith_append: "startsWith s p \<Longrightarrow> s = p @ drop (length p) s"
  by (induction s p rule: startsWith.induct) auto

lemma fail_at_split:
  assumes "fail_at s"
  shows "s = ''Failed to start:'' @ fail_group s
              @ dropWhile (\<lambda>x. \<not> is_lt x) (drop (length ''Failed to start:'') s)"
proof -
  from assms have "startsWith s ''Failed to start:''"
    unfolding fail_at_def by (rule conjunct1)
  then have "s = ''Failed to start:'' @ drop (length ''Failed to start:'') s"
    by (rule startsWith_append)
  then show ?thesis
    unfolding fail_group_def takeWhile_dropWhile_id .
qed

lemma fail_group_line: "\<forall>c\<in>set (fail_group s). \<not> is_lt c"
  unfolding fail_group_def by (auto dest: set_takeWhileD)

lemma failMatch_Some:
  "failMatch buf = Some g \<Longrightarrow>
   g \<noteq> [] \<and> (\<forall>c\<in>set g. \<not> is_lt c) \<and> (\<exists>a b. buf = a @ ''Failed to start:'' @ g @ b)"
proof (induction buf)
  case Nil
  then show ?case by simp
next
  case (Cons c cs)
  show ?case
  proof (cases "fail_at (c # cs)")
    case True
    with Cons.prems have g: "g = fail_group (c # cs)" by simp
    from fail_at_split [OF True]
    have "\<exists>b. c # cs = [] @ ''Failed to start:'' @ g @ b"
      unfolding g append_Nil by (rule exI)
    moreover have "g \<noteq> []" using True unfolding g fail_at_def by (rule conjunct2)
    moreover have "\<forall>c\<in>set g. \<not> is_lt c" unfolding g by (rule fail_group_line)
    ultimately show ?thesis by blast
  next
    case False
    with Cons.prems have "failMatch cs = Some g" by simp
    from Cons.IH [OF this] obtain a b where
      "g \<noteq> []" "\<forall>c\<in>set g. \<not> is_lt c" "cs = a @ ''Failed to start:'' @ g @ b"
      by blast
    then have "c # cs = (c # a) @ ''Failed to start:'' @ g @ b"
      by (simp only: append_Cons)
    with \<open>g \<noteq> []\<close> \<open>\<forall>c\<in>set g. \<not> is_lt c\<close> show ?thesis by blast
  qed
qed


text \<open>The two tests of the wait and of the diagnostic, said without the functions that compute
  them: \<open>includes\<close> is "occurs somewhere in", and the regular expression
  \<open>/Failed to start:(.+)/\<close> takes the leftmost occurrence of \<open>Failed to start:\<close> that is
  followed by a character other than a line terminator, with everything up to the end of
  that line as its group.\<close>

lemma startsWith_self: "startsWith (p @ r) p"
  by (induction p) auto

lemma startsWith_iff: "startsWith s p \<longleftrightarrow> (\<exists>r. s = p @ r)"
  using startsWith_append [of s p] startsWith_self by metis

lemma includes_str_iff: "includes_str s t \<longleftrightarrow> (\<exists>a b. s = a @ t @ b)"
proof (induction s)
  case Nil
  then show ?case by auto
next
  case (Cons c cs)
  show ?case
  proof
    assume "includes_str (c # cs) t"
    then have "startsWith (c # cs) t \<or> includes_str cs t" by simp
    then show "\<exists>a b. c # cs = a @ t @ b"
    proof
      assume "startsWith (c # cs) t"
      then obtain r where "c # cs = t @ r" unfolding startsWith_iff ..
      then have "c # cs = [] @ t @ r" by simp
      then show ?thesis by blast
    next
      assume "includes_str cs t"
      then obtain a b where "cs = a @ t @ b" unfolding Cons.IH by blast
      then have "c # cs = (c # a) @ t @ b" by simp
      then show ?thesis by blast
    qed
  next
    assume "\<exists>a b. c # cs = a @ t @ b"
    then obtain a b where ab: "c # cs = a @ t @ b" by blast
    show "includes_str (c # cs) t"
    proof (cases a)
      case Nil
      with ab have "startsWith (c # cs) t" unfolding startsWith_iff by auto
      then show ?thesis by simp
    next
      case (Cons x a')
      with ab have "cs = a' @ t @ b" by simp
      then have "includes_str cs t" unfolding Cons.IH by blast
      then show ?thesis by simp
    qed
  qed
qed

lemma has_marker_iff:
  "has_marker msg \<longleftrightarrow> (\<exists>a b. msg = a @ ''started'' @ b) \<or> (\<exists>a b. msg = a @ ''listening'' @ b)"
  unfolding has_marker_def includes_str_iff ..

lemma is_lt_iff: "is_lt c \<longleftrightarrow> c = CHR 0x0A \<or> c = CHR 0x0D"
proof -
  have "(of_char c :: nat) = 10 \<longleftrightarrow> c = CHR 0x0A"
    using of_char_eq_iff [of c "CHR 0x0A", where ?'a = nat] by simp
  moreover have "(of_char c :: nat) = 13 \<longleftrightarrow> c = CHR 0x0D"
    using of_char_eq_iff [of c "CHR 0x0D", where ?'a = nat] by simp
  ultimately show ?thesis by (simp add: is_lt_def)
qed

lemma head_match:
  "(startsWith s p \<and> takeWhile Q (drop (length p) s) \<noteq> []) \<longleftrightarrow>
   (\<exists>r. s = p @ r \<and> r \<noteq> [] \<and> Q (hd r))"
proof
  assume a: "startsWith s p \<and> takeWhile Q (drop (length p) s) \<noteq> []"
  then have s: "s = p @ drop (length p) s" by (simp add: startsWith_append)
  from a have "drop (length p) s \<noteq> [] \<and> Q (hd (drop (length p) s))"
    by (simp add: takeWhile_eq_Nil_iff)
  with s show "\<exists>r. s = p @ r \<and> r \<noteq> [] \<and> Q (hd r)" by blast
next
  assume "\<exists>r. s = p @ r \<and> r \<noteq> [] \<and> Q (hd r)"
  then obtain r where "s = p @ r" "r \<noteq> []" "Q (hd r)" by blast
  then show "startsWith s p \<and> takeWhile Q (drop (length p) s) \<noteq> []"
    by (simp add: startsWith_self takeWhile_eq_Nil_iff)
qed

lemma fail_at_iff:
  "fail_at s \<longleftrightarrow> (\<exists>r. s = ''Failed to start:'' @ r \<and> r \<noteq> [] \<and> \<not> is_lt (hd r))"
  unfolding fail_at_def fail_group_def by (rule head_match)

lemma group_of:
  assumes "s = p @ g @ b" and "\<forall>c\<in>set g. Q c" and "b = [] \<or> \<not> Q (hd b)"
  shows "takeWhile Q (drop (length p) s) = g"
proof -
  have "takeWhile Q b = []" using assms(3) by (simp add: takeWhile_eq_Nil_iff)
  then show ?thesis using assms(1,2) by (simp add: takeWhile_append2)
qed

lemma fail_group_of:
  assumes "s = ''Failed to start:'' @ g @ b" and "\<forall>c\<in>set g. \<not> is_lt c" and "b = [] \<or> is_lt (hd b)"
  shows "fail_group s = g"
  unfolding fail_group_def using assms(1,2) by (rule group_of) (use assms(3) in simp)

lemma failMatch_leftmost:
  assumes "fail_at s"
    and "\<forall>a' r. a @ s = a' @ ''Failed to start:'' @ r \<and> length a' < length a \<longrightarrow> r = [] \<or> is_lt (hd r)"
  shows "failMatch (a @ s) = Some (fail_group s)"
  using assms(2)
proof (induction a)
  case Nil
  from assms(1) have "s \<noteq> []" unfolding fail_at_iff by auto
  then obtain c cs where "s = c # cs" by (cases s) auto
  with assms(1) show ?case by simp
next
  case (Cons x a)
  have nf: "\<not> fail_at (x # a @ s)"
  proof
    assume "fail_at (x # a @ s)"
    then obtain r where r: "x # a @ s = ''Failed to start:'' @ r" "r \<noteq> []" "\<not> is_lt (hd r)"
      unfolding fail_at_iff by blast
    from r(1) have "(x # a) @ s = [] @ ''Failed to start:'' @ r \<and> length ([]::string) < length (x # a)"
      by simp
    with Cons.prems have "r = [] \<or> is_lt (hd r)" by blast
    with r(2,3) show False by simp
  qed
  have "\<forall>a' r. a @ s = a' @ ''Failed to start:'' @ r \<and> length a' < length a \<longrightarrow> r = [] \<or> is_lt (hd r)"
  proof (intro allI impI)
    fix a' r
    assume h: "a @ s = a' @ ''Failed to start:'' @ r \<and> length a' < length a"
    then have "(x # a) @ s = (x # a') @ ''Failed to start:'' @ r \<and> length (x # a') < length (x # a)"
      by simp
    with Cons.prems show "r = [] \<or> is_lt (hd r)" by blast
  qed
  from Cons.IH [OF this] nf show ?case by simp
qed

lemma failMatch_none:
  assumes "\<forall>a' r. buf = a' @ ''Failed to start:'' @ r \<longrightarrow> r = [] \<or> is_lt (hd r)"
  shows "failMatch buf = None"
  using assms
proof (induction buf)
  case Nil
  then show ?case by simp
next
  case (Cons c cs)
  have nf: "\<not> fail_at (c # cs)"
  proof
    assume "fail_at (c # cs)"
    then obtain r where r: "c # cs = ''Failed to start:'' @ r" "r \<noteq> []" "\<not> is_lt (hd r)"
      unfolding fail_at_iff by blast
    from r(1) have "c # cs = [] @ ''Failed to start:'' @ r" by simp
    with Cons.prems have "r = [] \<or> is_lt (hd r)" by blast
    with r(2,3) show False by simp
  qed
  have "\<forall>a' r. cs = a' @ ''Failed to start:'' @ r \<longrightarrow> r = [] \<or> is_lt (hd r)"
  proof (intro allI impI)
    fix a' r
    assume "cs = a' @ ''Failed to start:'' @ r"
    then have "c # cs = (c # a') @ ''Failed to start:'' @ r" by simp
    with Cons.prems show "r = [] \<or> is_lt (hd r)" by blast
  qed
  from Cons.IH [OF this] nf show ?case by simp
qed

lemma errMsg_match:
  assumes "buf = a @ ''Failed to start:'' @ g @ b"
    and "g \<noteq> []" and "\<forall>c\<in>set g. c \<noteq> CHR 0x0A \<and> c \<noteq> CHR 0x0D"
    and "b = [] \<or> hd b = CHR 0x0A \<or> hd b = CHR 0x0D"
    and "\<forall>a' r. buf = a' @ ''Failed to start:'' @ r \<and> length a' < length a \<longrightarrow>
           r = [] \<or> hd r = CHR 0x0A \<or> hd r = CHR 0x0D"
  shows "errMsg buf = take 150 (trim g)"
proof -
  let ?s = "''Failed to start:'' @ g @ b"
  have g: "\<forall>c\<in>set g. \<not> is_lt c" using assms(3) by (simp add: is_lt_iff)
  have b: "b = [] \<or> is_lt (hd b)" using assms(4) by (simp add: is_lt_iff)
  have "hd (g @ b) = hd g" using assms(2) by simp
  moreover have "\<not> is_lt (hd g)" using g assms(2) by simp
  ultimately have "?s = ''Failed to start:'' @ (g @ b) \<and> g @ b \<noteq> [] \<and> \<not> is_lt (hd (g @ b))"
    using assms(2) by simp
  then have fa: "fail_at ?s" unfolding fail_at_iff by blast
  have fg: "fail_group ?s = g" using refl g b by (rule fail_group_of)
  have "\<forall>a' r. a @ ?s = a' @ ''Failed to start:'' @ r \<and> length a' < length a \<longrightarrow> r = [] \<or> is_lt (hd r)"
    using assms(5) unfolding assms(1) is_lt_iff by blast
  from failMatch_leftmost [OF fa this] have "failMatch buf = Some g"
    unfolding assms(1) fg .
  then show ?thesis by (simp add: errMsg_def)
qed

lemma errMsg_no_match:
  assumes "\<forall>a' r. buf = a' @ ''Failed to start:'' @ r \<longrightarrow> r = [] \<or> hd r = CHR 0x0A \<or> hd r = CHR 0x0D"
  shows "errMsg buf = take 200 buf"
proof -
  have "failMatch buf = None"
    by (rule failMatch_none) (use assms in \<open>simp add: is_lt_iff\<close>)
  then show ?thesis by (simp add: errMsg_def)
qed

lemma marker_chunk_iff:
  "marker_chunk e \<longleftrightarrow>
     (\<exists>msg a b. e = Stdout msg \<and> (msg = a @ ''started'' @ b \<or> msg = a @ ''listening'' @ b))"
  by (cases e) (auto simp: has_marker_iff)

subsection \<open>The two outcomes of connect\<close>

lemma cleanup_not_connected:
  "status m \<noteq> Connected \<Longrightarrow> cumulativeStats (fst (cleanup inst w m)) = cumulativeStats m"
  by (simp add: cleanup_def split: option.splits)

lemma connect_failed:
  assumes "connect_failure inst pf w1 uri = Some msg"
  shows "\<exists>m' es. connect inst pf w0 w1 w2 uri m = (Err msg, m', es) \<and>
           status m' = Error \<and> error m' = Some msg \<and> process m' = None \<and>
           cumulativeStats m' = cumulativeStats (fst (disconnect_previous inst w0 m)) \<and>
           running es (set_option (process m)) = {} \<and>
           (\<exists>pre. es = pre @ unsetSystemProxy w2 m' @ [Unlink CONFIG_PATH])"
proof -
  obtain m0 e0 where dp: "disconnect_previous inst w0 m = (m0, e0)"
    by (cases "disconnect_previous inst w0 m")
  let ?m1 = "m0\<lparr>status := Connecting, error := None\<rparr>"
  have p0: "process m0 = None"
    using disconnect_previous_fields [of inst w0 m] by (simp add: dp)
  have r0: "running e0 (set_option (process m)) = {}"
    using running_disconnect_previous [of inst w0 m] by (simp add: dp)
  have "fst (try_connect inst pf w1 uri ?m1) = Some msg"
    using try_connect_failure [of ?m1 inst pf w1 uri] assms by simp
  then obtain m2 e1 where tc: "try_connect inst pf w1 uri ?m1 = (Some msg, m2, e1)"
    by (cases "try_connect inst pf w1 uri ?m1") auto
  from try_connect_failed_state [OF tc] p0
  have c2: "cumulativeStats m2 = cumulativeStats m0" and r1: "running e1 {} = set_option (process m2)"
    by simp_all
  let ?m3 = "m2\<lparr>status := Error, error := Some msg\<rparr>"
  obtain m4 e2 where cl: "cleanup inst w2 ?m3 = (m4, e2)"
    by (cases "cleanup inst w2 ?m3")
  have conn: "connect inst pf w0 w1 w2 uri m = (Err msg, m4, e0 @ e1 @ e2)"
    by (simp add: connect_def dp tc cl)
  have f4: "process m4 = None" "status m4 = Error" "error m4 = Some msg"
    using cleanup_fields [of inst w2 ?m3] by (simp_all add: cl)
  have c4: "cumulativeStats m4 = cumulativeStats m0"
    using c2 cleanup_not_connected [of ?m3 inst w2] by (simp add: cl)
  have r2: "running e2 (set_option (process m2)) = {}"
    using running_cleanup [of inst w2 ?m3] by (simp add: cl)
  have "e2 = (case process m2 of Some p \<Rightarrow> [Kill p] | None \<Rightarrow> []) @ unsetSystemProxy w2 m4 @ [Unlink CONFIG_PATH]"
    using cleanup_effects [of inst w2 ?m3] by (simp add: cl)
  then have "e0 @ e1 @ e2 = (e0 @ e1 @ (case process m2 of Some p \<Rightarrow> [Kill p] | None \<Rightarrow> []))
               @ unsetSystemProxy w2 m4 @ [Unlink CONFIG_PATH]"
    by simp
  then have tail: "\<exists>pre. e0 @ e1 @ e2 = pre @ unsetSystemProxy w2 m4 @ [Unlink CONFIG_PATH]"
    by (rule exI)
  have "running (e0 @ e1 @ e2) (set_option (process m)) = {}"
    by (simp add: running_append r0 r1 r2)
  with conn f4 c4 tail show ?thesis
    by (simp add: dp)
qed

lemma connect_succeeded:
  assumes "connect_failure inst pf w1 uri = None"
  shows "\<exists>m' es p evs. connect inst pf w0 w1 w2 uri m = (Ok, m', es) \<and>
           status m' = Connected \<and> error m' = None \<and> process m' = Some p \<and>
           spawn_outcome w1 = Spawned p evs \<and>
           cumulativeStats m' = cumulativeStats (fst (disconnect_previous inst w0 m)) \<and>
           running es (set_option (process m)) = {p}"
proof -
  obtain m0 e0 where dp: "disconnect_previous inst w0 m = (m0, e0)"
    by (cases "disconnect_previous inst w0 m")
  let ?m1 = "m0\<lparr>status := Connecting, error := None\<rparr>"
  have r0: "running e0 (set_option (process m)) = {}"
    using running_disconnect_previous [of inst w0 m] by (simp add: dp)
  have "status ?m1 = Connecting" by simp
  from try_connect_ok_state [OF this assms]
  obtain m2 e1 p evs where tc: "try_connect inst pf w1 uri ?m1 = (None, m2, e1)"
    and f: "status m2 = Connected" "error m2 = None" "cumulativeStats m2 = cumulativeStats m0"
       "spawn_outcome w1 = Spawned p evs" "process m2 = Some p" "running e1 {} = {p}"
    by auto
  have "connect inst pf w0 w1 w2 uri m = (Ok, m2, e0 @ e1)"
    by (simp add: connect_def dp tc)
  moreover have "running (e0 @ e1) (set_option (process m)) = {p}"
    by (simp add: running_append r0 f)
  ultimately show ?thesis using f by (simp add: dp)
qed

lemma connect_result:
  "fst (connect inst pf w0 w1 w2 uri m) =
     (case connect_failure inst pf w1 uri of None \<Rightarrow> Ok | Some msg \<Rightarrow> Err msg)"
proof (cases "connect_failure inst pf w1 uri")
  case None
  from connect_succeeded [OF this, where ?w0.0 = w0 and m = m and ?w2.0 = w2] show ?thesis by (auto simp: None)
next
  case (Some msg)
  from connect_failed [OF this, where ?w0.0 = w0 and m = m and ?w2.0 = w2] show ?thesis by (auto simp: Some)
qed


subsection \<open>The sample host\<close>

lemma sample_generateConfig:
  "\<not> isl (generateConfig sample_platform ''vless://id@example.com?security=tls#Label'')"
  by (simp add: generateConfig_def parseVlessUri_def sample_platform_def hash_label_def Let_def)



lemma sample_has_marker: "has_marker ''Xray 1.8.4 started''"
  by (simp add: has_marker_def)

lemma sample_ready:
  "spawn_outcome ready_world = Spawned 7 [Stdout ''Xray 1.8.4 started''] \<and>
   writeFile_error ready_world CONFIG_PATH = None"
  by (simp add: ready_world_def)



lemma sample_setSystemProxy:
  "setSystemProxy ready_world m =
     (m\<lparr>activeNetworkService := Some ''Wi-Fi''\<rparr>,
      [Exec RouteLookup, Exec ListHardwarePorts] @ map Exec (proxy_on_commands ''Wi-Fi''), True)"
proof -
  have "getActiveNetworkService ready_world = (''Wi-Fi'', [Exec RouteLookup, Exec ListHardwarePorts])"
    by (simp add: getActiveNetworkService_def ready_world_def trim_def is_ws_def)
  moreover have "exec_seq ready_world (proxy_on_commands ''Wi-Fi'')
                   = (map Exec (proxy_on_commands ''Wi-Fi''), True)"
    by (rule exec_seq_all) (simp add: ready_world_def proxy_on_commands_def)
  ultimately show ?thesis by (simp add: setSystemProxy_def)
qed








text \<open>
  Claim C8. Let the configuration be generated and written, the binary be found and
  \<open>spawn\<close> return a process whose events during the wait are \<open>evs\<close>. A marker is a chunk
  of the standard output in which \<open>started\<close> or \<open>listening\<close> occurs; the rejecting events
  are an exit with a code other than 0 and the \<open>error\<close> event of a failed spawn. Then
  \<open>connect\<close> succeeds, and leaves the manager \<open>connected\<close> with that process, exactly when
  a marker comes before any rejecting event, or the window ends without a rejecting event.
  If an exit with a code other than 0 comes before any marker and any other rejecting
  event, \<open>connect\<close> returns the error \<open>xray error: \<close> followed by the diagnostic of the
  output captured so far (standard output and standard error, in the order of arrival),
  and the manager is in the state \<open>error\<close> with that message. The diagnostic of an output
  \<open>buf\<close> is: at the leftmost \<open>Failed to start:\<close> that is followed by a character other
  than a line feed or carriage return, the whole rest of that line, trimmed and cut to 150
  characters; when there is no such occurrence, the first 200 characters of \<open>buf\<close>.
\<close>

theorem readiness_wait:
  assumes "generateConfig pf uri = Inr cfg" and "writeFile_error w1 CONFIG_PATH = None"
    and "getXrayPath inst = Inr path" and "spawn_outcome w1 = Spawned p evs"
  shows "((fst (connect inst pf w0 w1 w2 uri m) = Ok) =
            ((\<exists>pre msg post. evs = pre @ Stdout msg # post \<and>
                 ((\<exists>a b. msg = a @ ''started'' @ b) \<or> (\<exists>a b. msg = a @ ''listening'' @ b)) \<and>
                 (\<forall>e\<in>set pre. \<not> rejecting e))
             \<or> (\<forall>e\<in>set evs. \<not> rejecting e))) \<and>
         (fst (connect inst pf w0 w1 w2 uri m) = Ok \<longrightarrow>
            status (fst (snd (connect inst pf w0 w1 w2 uri m))) = Connected \<and>
            process (fst (snd (connect inst pf w0 w1 w2 uri m))) = Some p) \<and>
         (evs = pre @ Exit code # post \<and> code \<noteq> Some 0 \<and>
            (\<forall>e\<in>set pre. \<not> rejecting e) \<and>
            (\<forall>msg a b. Stdout msg \<in> set pre \<longrightarrow>
               msg \<noteq> a @ ''started'' @ b \<and> msg \<noteq> a @ ''listening'' @ b) \<longrightarrow>
            fst (connect inst pf w0 w1 w2 uri m) = Err (''xray error: '' @ errMsg (captured pre)) \<and>
            status (fst (snd (connect inst pf w0 w1 w2 uri m))) = Error \<and>
            error (fst (snd (connect inst pf w0 w1 w2 uri m)))
              = Some (''xray error: '' @ errMsg (captured pre))) \<and>
         (buf = front @ ''Failed to start:'' @ grp @ rest \<and> grp \<noteq> [] \<and>
            (\<forall>c\<in>set grp. c \<noteq> CHR 0x0A \<and> c \<noteq> CHR 0x0D) \<and>
            (rest = [] \<or> hd rest = CHR 0x0A \<or> hd rest = CHR 0x0D) \<and>
            (\<forall>a' r. buf = a' @ ''Failed to start:'' @ r \<and> length a' < length front \<longrightarrow>
               r = [] \<or> hd r = CHR 0x0A \<or> hd r = CHR 0x0D) \<longrightarrow>
            errMsg buf = take 150 (trim grp)) \<and>
         ((\<forall>a' r. buf = a' @ ''Failed to start:'' @ r \<longrightarrow>
               r = [] \<or> hd r = CHR 0x0A \<or> hd r = CHR 0x0D) \<longrightarrow>
            errMsg buf = take 200 buf)"
proof -
  have cf: "connect_failure inst pf w1 uri = wait_ready Connecting [] evs"
    using assms by (simp add: connect_failure_def)
  have ok: "(fst (connect inst pf w0 w1 w2 uri m) = Ok) = (wait_ready Connecting [] evs = None)"
    by (simp add: connect_result cf split: option.splits)
  have one: "(fst (connect inst pf w0 w1 w2 uri m) = Ok) =
            ((\<exists>pre msg post. evs = pre @ Stdout msg # post \<and>
                 ((\<exists>a b. msg = a @ ''started'' @ b) \<or> (\<exists>a b. msg = a @ ''listening'' @ b)) \<and>
                 (\<forall>e\<in>set pre. \<not> rejecting e))
             \<or> (\<forall>e\<in>set evs. \<not> rejecting e))"
    unfolding ok wait_ready_None_iff has_marker_iff ..
  have two: "fst (connect inst pf w0 w1 w2 uri m) = Ok \<longrightarrow>
            status (fst (snd (connect inst pf w0 w1 w2 uri m))) = Connected \<and>
            process (fst (snd (connect inst pf w0 w1 w2 uri m))) = Some p"
  proof
    assume "fst (connect inst pf w0 w1 w2 uri m) = Ok"
    then have "connect_failure inst pf w1 uri = None"
      by (simp add: ok cf)
    from connect_succeeded [OF this, where ?w0.0 = w0 and m = m and ?w2.0 = w2]
    show "status (fst (snd (connect inst pf w0 w1 w2 uri m))) = Connected \<and>
            process (fst (snd (connect inst pf w0 w1 w2 uri m))) = Some p"
      using assms(4) by auto
  qed
  have three: "evs = pre @ Exit code # post \<and> code \<noteq> Some 0 \<and>
            (\<forall>e\<in>set pre. \<not> rejecting e) \<and>
            (\<forall>msg a b. Stdout msg \<in> set pre \<longrightarrow>
               msg \<noteq> a @ ''started'' @ b \<and> msg \<noteq> a @ ''listening'' @ b) \<longrightarrow>
            fst (connect inst pf w0 w1 w2 uri m) = Err (''xray error: '' @ errMsg (captured pre)) \<and>
            status (fst (snd (connect inst pf w0 w1 w2 uri m))) = Error \<and>
            error (fst (snd (connect inst pf w0 w1 w2 uri m)))
              = Some (''xray error: '' @ errMsg (captured pre))"
  proof
    assume a: "evs = pre @ Exit code # post \<and> code \<noteq> Some 0 \<and>
            (\<forall>e\<in>set pre. \<not> rejecting e) \<and>
            (\<forall>msg a b. Stdout msg \<in> set pre \<longrightarrow>
               msg \<noteq> a @ ''started'' @ b \<and> msg \<noteq> a @ ''listening'' @ b)"
    have quiet: "\<forall>e\<in>set pre. \<not> rejecting e \<and> \<not> marker_chunk e"
    proof
      fix e
      assume e: "e \<in> set pre"
      have "\<not> marker_chunk e"
      proof
        assume "marker_chunk e"
        then obtain msg a b where "e = Stdout msg"
          "msg = a @ ''started'' @ b \<or> msg = a @ ''listening'' @ b"
          unfolding marker_chunk_iff by blast
        with a e show False by blast
      qed
      with a e show "\<not> rejecting e \<and> \<not> marker_chunk e" by blast
    qed
    from a have ev: "evs = pre @ Exit code # post" and cd: "code \<noteq> Some 0" by simp_all
    have "wait_ready Connecting [] evs = Some (''xray error: '' @ errMsg ([] @ captured pre))"
      unfolding ev using quiet cd by (rule wait_ready_exit)
    then have "connect_failure inst pf w1 uri = Some (''xray error: '' @ errMsg (captured pre))"
      by (simp add: cf)
    from connect_failed [OF this, where ?w0.0 = w0 and m = m and ?w2.0 = w2]
    show "fst (connect inst pf w0 w1 w2 uri m) = Err (''xray error: '' @ errMsg (captured pre)) \<and>
            status (fst (snd (connect inst pf w0 w1 w2 uri m))) = Error \<and>
            error (fst (snd (connect inst pf w0 w1 w2 uri m)))
              = Some (''xray error: '' @ errMsg (captured pre))"
      by auto
  qed
  have four: "buf = front @ ''Failed to start:'' @ grp @ rest \<and> grp \<noteq> [] \<and>
            (\<forall>c\<in>set grp. c \<noteq> CHR 0x0A \<and> c \<noteq> CHR 0x0D) \<and>
            (rest = [] \<or> hd rest = CHR 0x0A \<or> hd rest = CHR 0x0D) \<and>
            (\<forall>a' r. buf = a' @ ''Failed to start:'' @ r \<and> length a' < length front \<longrightarrow>
               r = [] \<or> hd r = CHR 0x0A \<or> hd r = CHR 0x0D) \<longrightarrow>
            errMsg buf = take 150 (trim grp)"
    using errMsg_match [of buf front grp rest] by blast
  have five: "(\<forall>a' r. buf = a' @ ''Failed to start:'' @ r \<longrightarrow>
               r = [] \<or> hd r = CHR 0x0A \<or> hd r = CHR 0x0D) \<longrightarrow>
            errMsg buf = take 200 buf"
    using errMsg_no_match [of buf] by blast
  from one two three four five show ?thesis by (intro conjI)
qed

theorem readiness_wait_witness:
  "fst (connect sample_install sample_platform ready_world listening_world ready_world
         ''vless://id@example.com?security=tls#Label'' (new_manager NoFile)) = Ok \<and>
   status (fst (snd (connect sample_install sample_platform ready_world listening_world ready_world
         ''vless://id@example.com?security=tls#Label'' (new_manager NoFile)))) = Connected \<and>
   fst (connect sample_install sample_platform ready_world crashing_world ready_world
         ''vless://id@example.com?security=tls#Label'' (new_manager NoFile))
     = Err ''xray error: bind'' \<and>
   errMsg ''panic: no config'' = ''panic: no config''"
proof -
  let ?uri = "''vless://id@example.com?security=tls#Label''"
  let ?quiet = "[Stdout ''Xray 1.8.4 starting'']"
  let ?noisy = "[Stderr (''Failed to start: bind'' @ [CHR 0x0A]),
                 Stdout ''Xray 1.8.4 starting'',
                 Stderr ''Failed to start: other'']"
  obtain cfg where g: "generateConfig sample_platform ?uri = Inr cfg"
    using sample_generateConfig by (cases "generateConfig sample_platform ?uri") auto
  have wl: "writeFile_error listening_world CONFIG_PATH = None"
    and sl: "spawn_outcome listening_world =
              Spawned 9 (?quiet @ Stdout ''listening on 127.0.0.1:10808'' # [Exit (Some 1)])"
    by (simp_all add: listening_world_def ready_world_def)
  have "''listening on 127.0.0.1:10808'' = [] @ ''listening'' @ '' on 127.0.0.1:10808''"
    by simp
  then have "\<exists>a b. ''listening on 127.0.0.1:10808'' = a @ ''listening'' @ b"
    by (intro exI)
  then have l2: "(\<exists>a b. ''listening on 127.0.0.1:10808'' = a @ ''started'' @ b) \<or>
                 (\<exists>a b. ''listening on 127.0.0.1:10808'' = a @ ''listening'' @ b)"
    by (rule disjI2)
  have l3: "\<forall>e\<in>set ?quiet. \<not> rejecting e"
    by simp
  have "?quiet @ Stdout ''listening on 127.0.0.1:10808'' # [Exit (Some 1)]
          = ?quiet @ Stdout ''listening on 127.0.0.1:10808'' # [Exit (Some 1)] \<and>
        ((\<exists>a b. ''listening on 127.0.0.1:10808'' = a @ ''started'' @ b) \<or>
         (\<exists>a b. ''listening on 127.0.0.1:10808'' = a @ ''listening'' @ b)) \<and>
        (\<forall>e\<in>set ?quiet. \<not> rejecting e)"
    using l2 l3 by (intro conjI refl)
  then have mk: "\<exists>pre msg post.
       ?quiet @ Stdout ''listening on 127.0.0.1:10808'' # [Exit (Some 1)] = pre @ Stdout msg # post \<and>
       ((\<exists>a b. msg = a @ ''started'' @ b) \<or> (\<exists>a b. msg = a @ ''listening'' @ b)) \<and>
       (\<forall>e\<in>set pre. \<not> rejecting e)"
    by (intro exI)
  note rl = readiness_wait [OF g wl sample_getXrayPath sl,
        where ?w0.0 = ready_world and ?w2.0 = ready_world and m = "new_manager NoFile"]
  have ok: "fst (connect sample_install sample_platform ready_world listening_world ready_world ?uri
                 (new_manager NoFile)) = Ok"
    by (rule iffD2 [OF rl [THEN conjunct1] disjI1 [OF mk]])
  have up: "status (fst (snd (connect sample_install sample_platform ready_world listening_world
                 ready_world ?uri (new_manager NoFile)))) = Connected"
    by (rule conjunct1 [OF mp [OF rl [THEN conjunct2, THEN conjunct1] ok]])
  have wc: "writeFile_error crashing_world CONFIG_PATH = None"
    and sc: "spawn_outcome crashing_world = Spawned 10 (?noisy @ Exit (Some 23) # [])"
    by (simp_all add: crashing_world_def ready_world_def)
  have nr: "\<forall>e\<in>set ?noisy. \<not> rejecting e"
    by simp
  have nm: "\<forall>msg a b. Stdout msg \<in> set ?noisy \<longrightarrow>
               msg \<noteq> a @ ''started'' @ b \<and> msg \<noteq> a @ ''listening'' @ b"
  proof (intro allI impI)
    fix msg a b
    assume "Stdout msg \<in> set ?noisy"
    then have m: "msg = ''Xray 1.8.4 starting''" by simp
    have "\<not> includes_str ''Xray 1.8.4 starting'' ''started''"
      "\<not> includes_str ''Xray 1.8.4 starting'' ''listening''"
      by simp_all
    then show "msg \<noteq> a @ ''started'' @ b \<and> msg \<noteq> a @ ''listening'' @ b"
      unfolding includes_str_iff m by blast
  qed
  have cd: "Some 23 \<noteq> Some (0::int)"
    by simp
  let ?buf = "''Failed to start: bind'' @ [CHR 0x0A] @ ''Xray 1.8.4 starting'' @ ''Failed to start: other''"
  have cap: "captured ?noisy = ?buf"
    by (simp add: captured_def)
  note rw = readiness_wait [OF g wc sample_getXrayPath sc,
        where ?w0.0 = ready_world and ?w2.0 = ready_world and m = "new_manager NoFile"
          and pre = ?noisy and code = "Some 23" and post = "[]"
          and buf = ?buf and front = "[]" and grp = "'' bind''"
          and rest = "CHR 0x0A # ''Xray 1.8.4 startingFailed to start: other''"]
  have hyp: "?noisy @ Exit (Some 23) # [] = ?noisy @ Exit (Some 23) # [] \<and> Some 23 \<noteq> Some (0::int) \<and>
             (\<forall>e\<in>set ?noisy. \<not> rejecting e) \<and>
             (\<forall>msg a b. Stdout msg \<in> set ?noisy \<longrightarrow>
                msg \<noteq> a @ ''started'' @ b \<and> msg \<noteq> a @ ''listening'' @ b)"
    using cd nr nm by (intro conjI refl)
  have b: "fst (connect sample_install sample_platform ready_world crashing_world ready_world ?uri
                 (new_manager NoFile)) = Err (''xray error: '' @ errMsg (captured ?noisy))"
    by (rule conjunct1 [OF mp [OF rw [THEN conjunct2, THEN conjunct2, THEN conjunct1] hyp]])
  have h1: "?buf = [] @ ''Failed to start:'' @ '' bind'' @ (CHR 0x0A # ''Xray 1.8.4 startingFailed to start: other'')"
    by simp
  have h2: "'' bind'' \<noteq> []"
    and h3: "\<forall>c\<in>set '' bind''. c \<noteq> CHR 0x0A \<and> c \<noteq> CHR 0x0D"
    and h4: "CHR 0x0A # ''Xray 1.8.4 startingFailed to start: other'' = [] \<or>
             hd (CHR 0x0A # ''Xray 1.8.4 startingFailed to start: other'') = CHR 0x0A \<or>
             hd (CHR 0x0A # ''Xray 1.8.4 startingFailed to start: other'') = CHR 0x0D"
    and h5: "\<forall>a' r. ?buf = a' @ ''Failed to start:'' @ r \<and> length a' < length ([]::string) \<longrightarrow>
               r = [] \<or> hd r = CHR 0x0A \<or> hd r = CHR 0x0D"
    by simp_all
  have hyp2: "?buf = [] @ ''Failed to start:'' @ '' bind'' @ (CHR 0x0A # ''Xray 1.8.4 startingFailed to start: other'') \<and>
              '' bind'' \<noteq> [] \<and>
              (\<forall>c\<in>set '' bind''. c \<noteq> CHR 0x0A \<and> c \<noteq> CHR 0x0D) \<and>
              (CHR 0x0A # ''Xray 1.8.4 startingFailed to start: other'' = [] \<or>
               hd (CHR 0x0A # ''Xray 1.8.4 startingFailed to start: other'') = CHR 0x0A \<or>
               hd (CHR 0x0A # ''Xray 1.8.4 startingFailed to start: other'') = CHR 0x0D) \<and>
              (\<forall>a' r. ?buf = a' @ ''Failed to start:'' @ r \<and> length a' < length ([]::string) \<longrightarrow>
                 r = [] \<or> hd r = CHR 0x0A \<or> hd r = CHR 0x0D)"
    using h1 h2 h3 h4 h5 by (intro conjI)
  have "errMsg ?buf = take 150 (trim '' bind'')"
    by (rule mp [OF rw [THEN conjunct2, THEN conjunct2, THEN conjunct2, THEN conjunct1] hyp2])
  then have "errMsg (captured ?noisy) = ''bind''"
    unfolding cap by (simp add: trim_def is_ws_def)
  moreover have "errMsg ''panic: no config'' = ''panic: no config''"
  proof -
    have "\<not> includes_str ''panic: no config'' ''Failed to start:''"
      by simp
    then have "\<forall>a' r. ''panic: no config'' = a' @ ''Failed to start:'' @ r \<longrightarrow>
                 r = [] \<or> hd r = CHR 0x0A \<or> hd r = CHR 0x0D"
      unfolding includes_str_iff by blast
    from mp [OF rl [where buf = "''panic: no config''",
                    THEN conjunct2, THEN conjunct2, THEN conjunct2, THEN conjunct2] this]
    show ?thesis by simp
  qed
  ultimately show ?thesis using ok up b by simp
qed

subsection \<open>connect on a URI that does not parse\<close>

lemma unset_service_cleanup: "unset_service (fst (cleanup inst w m)) = unset_service m"
  using cleanup_fields [of inst w m] by (simp add: unset_service_def)

lemma unsetSystemProxy_commands:
  "Exec c \<in> set (unsetSystemProxy w m) \<Longrightarrow> c \<in> set (proxy_off_commands (unset_service m))"
  unfolding unsetSystemProxy_def by (auto dest: exec_seq_subset)

lemma saveCumulativeFromSession_quiet:
  "e \<in> set (snd (saveCumulativeFromSession inst w m)) \<Longrightarrow>
   (\<forall>path args h. e \<noteq> Spawn path args h) \<and> (\<forall>c. e \<noteq> Exec c)"
  by (auto simp: saveCumulativeFromSession_def saveStats_effects Let_def split: sum.splits)

lemma cleanup_quiet:
  assumes "e \<in> set (snd (cleanup inst w m))"
  shows "(\<forall>path args h. e \<noteq> Spawn path args h) \<and>
         (\<forall>c. e = Exec c \<longrightarrow> c \<in> set (proxy_off_commands (unset_service m)))"
proof -
  from assms cleanup_effects [of inst w m]
  have "e \<in> set (snd (saveCumulativeFromSession inst w m)) \<or> (\<exists>p. e = Kill p)
          \<or> e \<in> set (unsetSystemProxy w (fst (cleanup inst w m))) \<or> e = Unlink CONFIG_PATH"
    by (auto split: if_splits option.splits)
  then show ?thesis
    using saveCumulativeFromSession_quiet [of e inst w m]
      unsetSystemProxy_commands [of _ w "fst (cleanup inst w m)"] unsetSystemProxy_Exec [of e w "fst (cleanup inst w m)"]
    by (auto simp: unset_service_cleanup)
qed

lemma disconnect_previous_quiet:
  assumes "e \<in> set (snd (disconnect_previous inst w m))"
  shows "(\<forall>path args h. e \<noteq> Spawn path args h) \<and>
         (\<forall>c. e = Exec c \<longrightarrow> c \<in> set (proxy_off_commands (unset_service m)))"
proof (cases "process m")
  case None
  with assms show ?thesis by (simp add: disconnect_previous_def)
next
  case (Some p)
  with assms have "e \<in> set (snd (cleanup inst w m))"
    by (cases "cleanup inst w m") (simp add: disconnect_previous_def disconnect_def)
  then show ?thesis by (rule cleanup_quiet)
qed

text \<open>
  Claim C1, as amended. For every URI on which parsing fails (the URL constructor or
  the label decoder throws), \<open>connect\<close> returns the error result with the parser's
  message and leaves the manager in the state \<open>error\<close> without a process handle. It spawns
  no process and switches no proxy on: after the teardown of a previous session (if one
  was held) its trace is the switch-off commands of \<open>unsetSystemProxy\<close> and the deletion of
  the temporary configuration file, and every host command in the trace is one of the
  three switch-off commands.
\<close>

theorem connect_parse_failure:
  assumes "parseVlessUri pf uri = Inl msg"
  shows "\<exists>m' es. connect inst pf w0 w1 w2 uri m = (Err msg, m', es) \<and>
           status m' = Error \<and> error m' = Some msg \<and> process m' = None \<and>
           es = snd (disconnect_previous inst w0 m) @ unsetSystemProxy w2 m @ [Unlink CONFIG_PATH] \<and>
           (\<forall>path args h. Spawn path args h \<notin> set es) \<and>
           (\<forall>c. Exec c \<in> set es \<longrightarrow> c \<in> set (proxy_off_commands (unset_service m)))"
proof -
  obtain m0 e0 where dp: "disconnect_previous inst w0 m = (m0, e0)"
    by (cases "disconnect_previous inst w0 m")
  have f0: "process m0 = None" "activeNetworkService m0 = activeNetworkService m"
    using disconnect_previous_fields [of inst w0 m] by (simp_all add: dp)
  let ?m1 = "m0\<lparr>status := Connecting, error := None\<rparr>"
  have tc: "try_connect inst pf w1 uri ?m1 = (Some msg, ?m1, [])"
    using assms by (simp add: try_connect_def generateConfig_def)
  let ?m3 = "?m1\<lparr>status := Error, error := Some msg\<rparr>"
  have u: "unsetSystemProxy w2 ?m3 = unsetSystemProxy w2 m"
    by (rule unsetSystemProxy_service) (simp add: f0)
  have cl: "cleanup inst w2 ?m3 = (?m3, unsetSystemProxy w2 m @ [Unlink CONFIG_PATH])"
    using f0 u by (simp add: cleanup_no_process unlinkSync_effects)
  have conn: "connect inst pf w0 w1 w2 uri m =
                (Err msg, ?m3, e0 @ unsetSystemProxy w2 m @ [Unlink CONFIG_PATH])"
    using cl by (simp add: connect_def dp tc)
  have q: "\<forall>e\<in>set (e0 @ unsetSystemProxy w2 m @ [Unlink CONFIG_PATH]).
             (\<forall>path args h. e \<noteq> Spawn path args h) \<and>
             (\<forall>c. e = Exec c \<longrightarrow> c \<in> set (proxy_off_commands (unset_service m)))"
  proof
    fix e
    assume "e \<in> set (e0 @ unsetSystemProxy w2 m @ [Unlink CONFIG_PATH])"
    then have "e \<in> set (snd (disconnect_previous inst w0 m)) \<or> e \<in> set (unsetSystemProxy w2 m)
                 \<or> e = Unlink CONFIG_PATH"
      by (auto simp: dp)
    then show "(\<forall>path args h. e \<noteq> Spawn path args h) \<and>
             (\<forall>c. e = Exec c \<longrightarrow> c \<in> set (proxy_off_commands (unset_service m)))"
      using disconnect_previous_quiet [of e inst w0 m] unsetSystemProxy_commands [of _ w2 m]
        unsetSystemProxy_Exec [of e w2 m]
      by auto
  qed
  show ?thesis
    unfolding conn using f0 q by (auto simp: dp)
qed

theorem connect_parse_failure_witness:
  "connect sample_install sample_platform ready_world ready_world ready_world ''http://''
     (new_manager NoFile) =
     (Err ''Invalid URL'',
      \<lparr>process = None, status = Error, error = Some ''Invalid URL'', activeNetworkService = None,
       cumulativeStats = \<lparr>uplink = 0, downlink = 0\<rparr>\<rparr>,
      [Exec (SetSocksState ''Wi-Fi'' False), Exec (SetWebState ''Wi-Fi'' False),
       Exec (SetSecureWebState ''Wi-Fi'' False), Unlink CONFIG_PATH])"
proof -
  have p: "parseVlessUri sample_platform ''http://'' = Inl ''Invalid URL''"
    by (simp add: parseVlessUri_def sample_platform_def)
  have u: "unsetSystemProxy ready_world (new_manager NoFile) =
             map Exec (proxy_off_commands ''Wi-Fi'')"
    by (simp add: unsetSystemProxy_def unset_service_def new_manager_def exec_seq_all
          ready_world_def)
  from connect_parse_failure [OF p, of sample_install ready_world ready_world ready_world
      "new_manager NoFile"]
  obtain m' es where
    c: "connect sample_install sample_platform ready_world ready_world ready_world ''http://''
          (new_manager NoFile) = (Err ''Invalid URL'', m', es)"
    and es: "es = snd (disconnect_previous sample_install ready_world (new_manager NoFile))
                @ unsetSystemProxy ready_world (new_manager NoFile) @ [Unlink CONFIG_PATH]"
    by blast
  have "m' = \<lparr>process = None, status = Error, error = Some ''Invalid URL'', activeNetworkService = None,
       cumulativeStats = \<lparr>uplink = 0, downlink = 0\<rparr>\<rparr>"
    using c
    by (simp add: connect_def disconnect_previous_def new_manager_def try_connect_def
          generateConfig_def p cleanup_no_process split: prod.splits)
  with c es u show ?thesis
    by (simp add: disconnect_previous_def new_manager_def proxy_off_commands_def)
qed

text \<open>
  The claim as stated fails, at a URI whose scheme is \<open>http\<close>: the parser never reads the
  protocol and returns a descriptor, and \<open>connect\<close> succeeds, spawns the engine and
  switches the SOCKS proxy of the host on. And at \<open>http://\<close>, which the URL constructor
  rejects, \<open>connect\<close> spawns nothing but still runs the three switch-off commands on the
  host.
\<close>

theorem connect_foreign_scheme_counterexample:
  "newURL sample_platform ''http://u@example.com:8080'' =
     Inr \<lparr>url_protocol = ''http:'', url_username = ''u'', url_hostname = ''example.com'',
          url_port = ''8080'', url_searchParams = [], url_hash = ''''\<rparr> \<and>
   ports_of (parseVlessUri sample_platform ''http://u@example.com:8080'') = [Num 8080] \<and>
   fst (connect sample_install sample_platform ready_world ready_world ready_world
         ''http://u@example.com:8080'' (new_manager NoFile)) = Ok \<and>
   Spawn (prodPath sample_install) [''run'', ''-config'', CONFIG_PATH] (Some 7)
     \<in> set (snd (snd (connect sample_install sample_platform ready_world ready_world ready_world
         ''http://u@example.com:8080'' (new_manager NoFile)))) \<and>
   Exec (SetSocksState ''Wi-Fi'' True)
     \<in> set (snd (snd (connect sample_install sample_platform ready_world ready_world ready_world
         ''http://u@example.com:8080'' (new_manager NoFile)))) \<and>
   snd (snd (connect sample_install sample_platform ready_world ready_world ready_world
         ''http://'' (new_manager NoFile)))
     = [Exec (SetSocksState ''Wi-Fi'' False), Exec (SetWebState ''Wi-Fi'' False),
        Exec (SetSecureWebState ''Wi-Fi'' False), Unlink CONFIG_PATH]"
proof -
  have u: "newURL sample_platform ''http://u@example.com:8080'' =
     Inr \<lparr>url_protocol = ''http:'', url_username = ''u'', url_hostname = ''example.com'',
          url_port = ''8080'', url_searchParams = [], url_hash = ''''\<rparr>"
    by (simp add: sample_platform_def)
  have d: "decodeURIComponent sample_platform (hash_label
      \<lparr>url_protocol = ''http:'', url_username = ''u'', url_hostname = ''example.com'',
          url_port = ''8080'', url_searchParams = [], url_hash = ''''\<rparr>) = Inr ''Volyent''"
    by (simp add: sample_platform_def hash_label_def)
  note pr = parseVlessUri_Inr [OF u d]
  have prt: "ports_of (parseVlessUri sample_platform ''http://u@example.com:8080'') = [Num 8080]"
    by (simp add: pr ports_of_def parseInt10_def is_ws_def is_digit_def digits_val_def)
  have gen: "generateConfig sample_platform ''http://u@example.com:8080''
               = Inr (config_of (outbound (projr (parseVlessUri sample_platform ''http://u@example.com:8080''))))"
    by (simp add: generateConfig_def pr)
  have tc: "try_connect sample_install sample_platform ready_world ''http://u@example.com:8080''
              ((new_manager NoFile)\<lparr>status := Connecting, error := None\<rparr>) =
           (None, (fst (setSystemProxy ready_world ((new_manager NoFile)\<lparr>status := Connecting, error := None, process := Some 7\<rparr>)))\<lparr>status := Connected\<rparr>,
            [WriteFile CONFIG_PATH (ConfigJson (config_of (outbound (projr (parseVlessUri sample_platform ''http://u@example.com:8080''))))),
             Spawn (prodPath sample_install) [''run'', ''-config'', CONFIG_PATH] (Some 7)]
            @ fst (snd (setSystemProxy ready_world ((new_manager NoFile)\<lparr>status := Connecting, error := None, process := Some 7\<rparr>))))"
    by (rule try_connect_ready [OF gen conjunct2 [OF sample_ready] sample_getXrayPath
          conjunct1 [OF sample_ready]]) simp
  have c1: "connect sample_install sample_platform ready_world ready_world ready_world
         ''http://u@example.com:8080'' (new_manager NoFile) =
         (Ok, (fst (setSystemProxy ready_world ((new_manager NoFile)\<lparr>status := Connecting, error := None, process := Some 7\<rparr>)))\<lparr>status := Connected\<rparr>,
            [WriteFile CONFIG_PATH (ConfigJson (config_of (outbound (projr (parseVlessUri sample_platform ''http://u@example.com:8080''))))),
             Spawn (prodPath sample_install) [''run'', ''-config'', CONFIG_PATH] (Some 7)]
            @ fst (snd (setSystemProxy ready_world ((new_manager NoFile)\<lparr>status := Connecting, error := None, process := Some 7\<rparr>))))"
    by (simp add: connect_def disconnect_previous_def tc) (simp add: new_manager_def)
  have junk: "snd (snd (connect sample_install sample_platform ready_world ready_world ready_world
         ''http://'' (new_manager NoFile)))
     = [Exec (SetSocksState ''Wi-Fi'' False), Exec (SetWebState ''Wi-Fi'' False),
        Exec (SetSecureWebState ''Wi-Fi'' False), Unlink CONFIG_PATH]"
    by (simp add: connect_def disconnect_previous_def new_manager_def try_connect_def
          generateConfig_def parseVlessUri_def sample_platform_def cleanup_def unsetSystemProxy_def
          unset_service_def proxy_off_commands_def unlinkSync_effects ready_world_def)
  show ?thesis
    using u prt junk by (simp add: c1 sample_setSystemProxy proxy_on_commands_def)
qed

section \<open>Sessions, folds and the cumulative totals\<close>

subsection \<open>The trace of a call keeps the discipline of the fold\<close>

lemma scan_trace_append:
  "scan_trace s (es @ es') = (case scan_trace s es of None \<Rightarrow> None | Some s' \<Rightarrow> scan_trace s' es')"
  by (induction es arbitrary: s) (auto split: option.splits)

lemma paths_differ: "CONFIG_PATH \<noteq> STATS_PATH"
  by (simp add: CONFIG_PATH_def STATS_PATH_def)

lemma scan_commands:
  assumes "\<forall>e\<in>set es. \<exists>c. e = Exec c \<and> c \<noteq> RouteLookup" and "k \<noteq> Persisted"
  shows "scan_trace (opn, k) es = Some (opn, if es = [] then k else Idle)"
  using assms
proof (induction es arbitrary: k)
  case Nil
  then show ?case by simp
next
  case (Cons e es)
  then obtain c where "e = Exec c" "c \<noteq> RouteLookup" by auto
  with Cons show ?case by simp
qed

lemma scan_unset:
  assumes "k \<noteq> Persisted"
  shows "scan_trace (opn, k) (unsetSystemProxy w m) = Some (opn, Idle)"
proof -
  have "\<forall>e\<in>set (unsetSystemProxy w m). \<exists>c. e = Exec c \<and> c \<noteq> RouteLookup"
  proof
    fix e
    assume "e \<in> set (unsetSystemProxy w m)"
    then have "\<exists>c\<in>set (proxy_off_commands (unset_service m)). e = Exec c"
      unfolding unsetSystemProxy_def by (rule exec_seq_subset)
    then obtain c where c: "c \<in> set (proxy_off_commands (unset_service m))" "e = Exec c"
      by blast
    from c(1) have "c \<noteq> RouteLookup"
      by (auto simp: proxy_off_commands_def)
    with c(2) show "\<exists>c. e = Exec c \<and> c \<noteq> RouteLookup" by blast
  qed
  from scan_commands [OF this assms] unsetSystemProxy_first [of w m]
  show ?thesis by auto
qed

lemma scan_unset_unlink:
  assumes "k \<noteq> Persisted"
  shows "scan_trace (opn, k) (unsetSystemProxy w m @ [Unlink CONFIG_PATH]) = Some (opn, Idle)"
  by (simp add: scan_trace_append scan_unset [OF assms])

lemma scan_cleanup:
  assumes "session_inv inst m" and "k \<noteq> Persisted"
  shows "scan_trace (status m = Connected, k) (snd (cleanup inst w m)) = Some (False, Idle)"
proof (cases "status m = Connected")
  case True
  with assms(1) obtain p path where p: "process m = Some p" and x: "getXrayPath inst = Inr path"
    by (cases "getXrayPath inst") (auto simp: session_inv_def)
  have q: "scan_trace (True, k)
             [Query path API_PORT ''uplink'', Query path API_PORT ''downlink'',
              WriteFile STATS_PATH (StatsJson
               \<lparr>uplink = uplink (cumulativeStats m) + queryStats w ''uplink'',
                downlink = downlink (cumulativeStats m) + queryStats w ''downlink''\<rparr>),
              Kill p] = Some (False, Idle)"
    using assms(2) by simp
  show ?thesis
    unfolding cleanup_connected [OF True p x] snd_conv
    using True scan_unset_unlink [of Idle False w m] q
    by (simp only: scan_trace_append) simp
next
  case False
  have "scan_trace (False, k) (case process m of Some p \<Rightarrow> [Kill p] | None \<Rightarrow> [])
          = Some (False, if process m = None then k else Idle)"
    using assms(2) by (cases "process m") simp_all
  then show ?thesis
    unfolding cleanup_idle [OF False] snd_conv
    using False assms(2) scan_unset_unlink [of _ False w m]
    by (simp only: scan_trace_append) simp
qed


lemma scan_disconnect:
  assumes "session_inv inst m" and "k \<noteq> Persisted"
  shows "scan_trace (status m = Connected, k) (snd (snd (disconnect inst w m))) = Some (False, Idle)"
  using scan_cleanup [OF assms, of w] by (cases "cleanup inst w m") (simp add: disconnect_def)

lemma scan_disconnect_previous:
  assumes "session_inv inst m" and "k \<noteq> Persisted"
  shows "\<exists>k'. scan_trace (status m = Connected, k) (snd (disconnect_previous inst w m)) = Some (False, k')
              \<and> k' \<noteq> Persisted"
proof (cases "process m")
  case None
  with assms(1) have "status m \<noteq> Connected" by (simp add: session_inv_def)
  with None assms(2) show ?thesis by (simp add: disconnect_previous_def)
next
  case (Some p)
  then show ?thesis
    using scan_disconnect [OF assms, of w]
    by (cases "disconnect inst w m") (auto simp: disconnect_previous_def)
qed

lemma scan_try_connect_failed:
  assumes "try_connect inst pf w uri m = (Some msg, m2, e1)" and "k \<noteq> Persisted"
  shows "\<exists>k'. scan_trace (False, k) e1 = Some (False, k') \<and> k' \<noteq> Persisted"
  using assms paths_differ
  by (auto simp: try_connect_def writeFileSync_def
      split: sum.splits option.splits spawn_outcome.splits prod.splits)

lemma getActiveNetworkService_effects:
  "snd (getActiveNetworkService w) = [Exec RouteLookup] \<or>
   snd (getActiveNetworkService w) = [Exec RouteLookup, Exec ListHardwarePorts]"
  by (simp add: getActiveNetworkService_def split: option.splits)

lemma scan_setSystemProxy:
  "scan_trace (False, Idle) (fst (snd (setSystemProxy w m))) = Some (True, Idle)"
proof -
  obtain svc e0 where g: "getActiveNetworkService w = (svc, e0)"
    by (cases "getActiveNetworkService w")
  obtain e1 ok where x: "exec_seq w (proxy_on_commands svc) = (e1, ok)"
    by (cases "exec_seq w (proxy_on_commands svc)")
  have s0: "scan_trace (False, Idle) e0 = Some (True, Idle)"
    using getActiveNetworkService_effects [of w] by (auto simp: g)
  have "\<forall>e\<in>set e1. \<exists>c. e = Exec c \<and> c \<noteq> RouteLookup"
  proof
    fix e
    assume "e \<in> set e1"
    then have "e \<in> set (fst (exec_seq w (proxy_on_commands svc)))" by (simp add: x)
    then have "\<exists>c\<in>set (proxy_on_commands svc). e = Exec c" by (rule exec_seq_subset)
    then obtain c where c: "c \<in> set (proxy_on_commands svc)" "e = Exec c" by blast
    from c(1) have "c \<noteq> RouteLookup" by (auto simp: proxy_on_commands_def)
    with c(2) show "\<exists>c. e = Exec c \<and> c \<noteq> RouteLookup" by blast
  qed
  then have s1: "scan_trace (True, Idle) e1 = Some (True, Idle)"
    using scan_commands [of e1 Idle True] by simp
  show ?thesis
    by (simp add: setSystemProxy_def g x scan_trace_append s0 s1)
qed

lemma scan_getTrafficStats:
  assumes "k \<noteq> Persisted"
  shows "\<exists>k'. scan_trace (opn, k) (snd (getTrafficStats inst w m)) = Some (opn, k') \<and> k' \<noteq> Persisted"
  using assms by (auto simp: getTrafficStats_def Let_def split: sum.splits)

lemma scan_connect:
  assumes "session_inv inst m" and "k \<noteq> Persisted"
  shows "\<exists>k'. scan_trace (status m = Connected, k) (snd (snd (connect inst pf w0 w1 w2 uri m)))
                = Some (status (fst (snd (connect inst pf w0 w1 w2 uri m))) = Connected, k')
              \<and> k' \<noteq> Persisted
              \<and> session_inv inst (fst (snd (connect inst pf w0 w1 w2 uri m)))"
proof -
  obtain m0 e0 where dp: "disconnect_previous inst w0 m = (m0, e0)"
    by (cases "disconnect_previous inst w0 m")
  let ?m1 = "m0\<lparr>status := Connecting, error := None\<rparr>"
  from scan_disconnect_previous [OF assms, of w0]
  obtain k0 where s0: "scan_trace (status m = Connected, k) e0 = Some (False, k0)" and k0: "k0 \<noteq> Persisted"
    by (auto simp: dp)
  show ?thesis
  proof (cases "connect_failure inst pf w1 uri")
    case None
    from connect_failure_None [OF None] obtain cfg path p evs where
      f: "generateConfig pf uri = Inr cfg" "writeFile_error w1 CONFIG_PATH = None"
         "getXrayPath inst = Inr path" "spawn_outcome w1 = Spawned p evs"
         "wait_ready Connecting [] evs = None"
      by blast
    from f(5) have "wait_ready (status ?m1) [] evs = None" by simp
    note tc = try_connect_ready [OF f(1-4) this]
    let ?m2 = "(fst (setSystemProxy w1 (?m1\<lparr>process := Some p\<rparr>)))\<lparr>status := Connected\<rparr>"
    let ?e2 = "fst (snd (setSystemProxy w1 (?m1\<lparr>process := Some p\<rparr>)))"
    have conn: "connect inst pf w0 w1 w2 uri m =
                  (Ok, ?m2, e0 @ [WriteFile CONFIG_PATH (ConfigJson cfg),
                                  Spawn path [''run'', ''-config'', CONFIG_PATH] (Some p)] @ ?e2)"
      by (simp add: connect_def dp tc)
    have inv: "session_inv inst ?m2"
      using setSystemProxy_fields [of w1 "?m1\<lparr>process := Some p\<rparr>"] f(3)
      by (simp add: session_inv_def)
    show ?thesis
      unfolding conn
      using inv k0 paths_differ
      by (simp add: scan_trace_append s0 scan_setSystemProxy)
  next
    case (Some msg)
    have "fst (try_connect inst pf w1 uri ?m1) = Some msg"
      using try_connect_failure [of ?m1 inst pf w1 uri] Some by simp
    then obtain m2 e1 where tc: "try_connect inst pf w1 uri ?m1 = (Some msg, m2, e1)"
      by (cases "try_connect inst pf w1 uri ?m1") auto
    let ?m3 = "m2\<lparr>status := Error, error := Some msg\<rparr>"
    obtain m4 e2 where cl: "cleanup inst w2 ?m3 = (m4, e2)"
      by (cases "cleanup inst w2 ?m3")
    have conn: "connect inst pf w0 w1 w2 uri m = (Err msg, m4, e0 @ e1 @ e2)"
      by (simp add: connect_def dp tc cl)
    from scan_try_connect_failed [OF tc k0]
    obtain k1 where s1: "scan_trace (False, k0) e1 = Some (False, k1)" and k1: "k1 \<noteq> Persisted"
      by blast
    have "session_inv inst ?m3" by (simp add: session_inv_def)
    from scan_cleanup [OF this k1, of w2]
    have s2: "scan_trace (False, k1) e2 = Some (False, Idle)"
      by (simp add: cl)
    have st4: "status m4 = Error"
      using cleanup_fields [of inst w2 ?m3] by (simp add: cl)
    show ?thesis
      unfolding conn
      by (simp add: scan_trace_append s0 s1 s2 st4 session_inv_def)
  qed
qed

lemma scan_do_call:
  assumes "session_inv inst m" and "k \<noteq> Persisted"
  shows "\<exists>k'. scan_trace (status m = Connected, k) (snd (do_call inst pf c m))
                = Some (status (fst (do_call inst pf c m)) = Connected, k')
              \<and> k' \<noteq> Persisted
              \<and> session_inv inst (fst (do_call inst pf c m))"
proof (cases c)
  case (Connect uri w0 w1 w2)
  show ?thesis
    using scan_connect [OF assms, of pf w0 w1 w2 uri]
    by (cases "connect inst pf w0 w1 w2 uri m") (auto simp: Connect)
next
  case (Disconnect w)
  show ?thesis
    using scan_disconnect [OF assms, of w] disconnect_fields [of inst w m]
    by (cases "disconnect inst w m") (auto simp: Disconnect session_inv_def)
next
  case (GetTrafficStats w)
  show ?thesis
    using scan_getTrafficStats [OF assms(2), of "status m = Connected" inst w m] assms(1)
    by (simp add: GetTrafficStats)
next
  case GetStatus
  then show ?thesis using assms by simp
qed

lemma scan_run:
  assumes "session_inv inst m" and "k \<noteq> Persisted"
  shows "\<exists>k'. scan_trace (status m = Connected, k) (snd (run inst pf cs m))
                = Some (status (fst (run inst pf cs m)) = Connected, k')
              \<and> k' \<noteq> Persisted"
  using assms
proof (induction cs arbitrary: m k)
  case Nil
  then show ?case by simp
next
  case (Cons c cs)
  obtain m1 e1 where dc: "do_call inst pf c m = (m1, e1)" by (cases "do_call inst pf c m")
  from scan_do_call [OF Cons.prems, of pf c]
  obtain k1 where s1: "scan_trace (status m = Connected, k) e1 = Some (status m1 = Connected, k1)"
    and k1: "k1 \<noteq> Persisted" and inv: "session_inv inst m1"
    by (auto simp: dc)
  from Cons.IH [OF inv k1]
  obtain k2 where s2: "scan_trace (status m1 = Connected, k1) (snd (run inst pf cs m1))
                = Some (status (fst (run inst pf cs m1)) = Connected, k2)" and k2: "k2 \<noteq> Persisted"
    by blast
  show ?case
    using s1 s2 k2
    by (cases "run inst pf cs m1") (auto simp: dc scan_trace_append)
qed

lemma folds_once_run:
  assumes "session_inv inst m"
  shows "folds_once (status m = Connected) (snd (run inst pf cs m))"
  using scan_run [OF assms, of Idle pf cs] by (auto simp: folds_once_def)


subsection \<open>The cumulative totals never decrease\<close>

lemma sum_nonneg:
  "list_all (\<lambda>v. 0 \<le> or0 (parseInt10 v)) vs \<Longrightarrow> 0 \<le> a \<Longrightarrow>
   0 \<le> foldl (\<lambda>sum v. sum + or0 (parseInt10 v)) a vs"
  by (induction vs arbitrary: a) auto

lemma queryStats_nonneg:
  "reply_nonneg (statsquery w pattern) \<Longrightarrow> 0 \<le> queryStats w pattern"
  by (cases "statsquery w pattern") (simp_all add: queryStats_def reply_nonneg_def sum_nonneg)

lemma saveCumulativeFromSession_monotone:
  assumes "world_nonneg w"
  shows "uplink (cumulativeStats m) \<le> uplink (cumulativeStats (fst (saveCumulativeFromSession inst w m))) \<and>
         downlink (cumulativeStats m) \<le> downlink (cumulativeStats (fst (saveCumulativeFromSession inst w m)))"
proof (cases "getXrayPath inst")
  case (Inl msg)
  then show ?thesis by (simp add: saveCumulativeFromSession_def)
next
  case (Inr path)
  from assms have "0 \<le> queryStats w ''uplink''" "0 \<le> queryStats w ''downlink''"
    by (simp_all add: world_nonneg_def queryStats_nonneg)
  then show ?thesis by (simp add: saveCumulativeFromSession_found [OF Inr])
qed

lemma cleanup_cumulative:
  "cumulativeStats (fst (cleanup inst w m)) =
     (if process m \<noteq> None \<and> status m = Connected
      then cumulativeStats (fst (saveCumulativeFromSession inst w m))
      else cumulativeStats m)"
  by (cases "saveCumulativeFromSession inst w m")
     (auto simp: cleanup_def split: option.splits prod.splits)

lemma cleanup_monotone:
  assumes "world_nonneg w"
  shows "uplink (cumulativeStats m) \<le> uplink (cumulativeStats (fst (cleanup inst w m))) \<and>
         downlink (cumulativeStats m) \<le> downlink (cumulativeStats (fst (cleanup inst w m)))"
  using saveCumulativeFromSession_monotone [OF assms, of m inst]
  by (simp add: cleanup_cumulative)

lemma disconnect_cumulative:
  "cumulativeStats (fst (snd (disconnect inst w m))) = cumulativeStats (fst (cleanup inst w m))"
  by (cases "cleanup inst w m") (simp add: disconnect_def)

lemma disconnect_previous_monotone:
  assumes "world_nonneg w"
  shows "uplink (cumulativeStats m) \<le> uplink (cumulativeStats (fst (disconnect_previous inst w m))) \<and>
         downlink (cumulativeStats m) \<le> downlink (cumulativeStats (fst (disconnect_previous inst w m)))"
proof (cases "process m")
  case None
  then show ?thesis by (simp add: disconnect_previous_def)
next
  case (Some p)
  have "fst (disconnect_previous inst w m) = fst (snd (disconnect inst w m))"
    using Some by (cases "disconnect inst w m") (simp add: disconnect_previous_def)
  then show ?thesis
    using cleanup_monotone [OF assms, of m inst] by (simp add: disconnect_cumulative)
qed

lemma connect_cumulative:
  "cumulativeStats (fst (snd (connect inst pf w0 w1 w2 uri m)))
     = cumulativeStats (fst (disconnect_previous inst w0 m))"
proof (cases "connect_failure inst pf w1 uri")
  case None
  from connect_succeeded [OF this, where ?w0.0 = w0 and m = m and ?w2.0 = w2]
  show ?thesis by auto
next
  case (Some msg)
  from connect_failed [OF this, where ?w0.0 = w0 and m = m and ?w2.0 = w2]
  show ?thesis by auto
qed

lemma do_call_monotone:
  assumes "call_nonneg c"
  shows "uplink (cumulativeStats m) \<le> uplink (cumulativeStats (fst (do_call inst pf c m))) \<and>
         downlink (cumulativeStats m) \<le> downlink (cumulativeStats (fst (do_call inst pf c m)))"
proof (cases c)
  case (Connect uri w0 w1 w2)
  with assms have "world_nonneg w0" by simp
  from disconnect_previous_monotone [OF this, of m inst] show ?thesis
    using connect_cumulative [of inst pf w0 w1 w2 uri m]
    by (cases "connect inst pf w0 w1 w2 uri m") (simp add: Connect)
next
  case (Disconnect w)
  with assms have "world_nonneg w" by simp
  from cleanup_monotone [OF this, of m inst] show ?thesis
    using disconnect_cumulative [of inst w m]
    by (cases "disconnect inst w m") (simp add: Disconnect)
next
  case (GetTrafficStats w)
  then show ?thesis by simp
next
  case GetStatus
  then show ?thesis by simp
qed

lemma run_monotone:
  assumes "\<forall>c\<in>set cs. call_nonneg c"
  shows "uplink (cumulativeStats m) \<le> uplink (cumulativeStats (fst (run inst pf cs m))) \<and>
         downlink (cumulativeStats m) \<le> downlink (cumulativeStats (fst (run inst pf cs m)))"
  using assms
proof (induction cs arbitrary: m)
  case Nil
  then show ?case by simp
next
  case (Cons c cs)
  obtain m1 e1 where dc: "do_call inst pf c m = (m1, e1)" by (cases "do_call inst pf c m")
  from Cons.prems have c: "call_nonneg c" and cs: "\<forall>c\<in>set cs. call_nonneg c" by simp_all
  from do_call_monotone [OF c, of m inst pf] Cons.IH [OF cs, of m1]
  show ?case
    by (cases "run inst pf cs m1") (auto simp: dc)
qed

lemma run_append:
  "fst (run inst pf (cs @ cs') m) = fst (run inst pf cs' (fst (run inst pf cs m)))"
proof (induction cs arbitrary: m)
  case Nil
  then show ?case by simp
next
  case (Cons c cs)
  obtain m1 e1 where dc: "do_call inst pf c m = (m1, e1)" by (cases "do_call inst pf c m")
  show ?case
    using Cons.IH [of m1]
    by (cases "run inst pf cs m1"; cases "run inst pf (cs @ cs') m1") (simp add: dc)
qed

text \<open>
  Claim C4. Take any sequence of calls (\<open>connect\<close>, \<open>disconnect\<close>, \<open>getTrafficStats\<close>,
  \<open>getStatus\<close>, under any behaviour of the host) on a freshly constructed manager, where
  the engine reports no negative counter. The cumulative uplink and downlink totals
  after any prefix of the sequence are at most those after the whole sequence. The trace
  of the sequence keeps the discipline of \<open>folds_once\<close>: the cumulative record is written
  only while a session is open, directly after the uplink and the downlink query, and
  the next action is the kill of the process; a connected session is never killed
  without that block, and none is folded twice. And the fold of a connected session is
  this block: the two queries, the write of the record with the two sums added, the
  kill, then the rest of \<open>cleanup\<close>.
\<close>

theorem cumulative_monotone_fold_once:
  assumes "\<forall>c\<in>set (cs @ cs'). call_nonneg c"
  shows "uplink (cumulativeStats (fst (run inst pf cs (new_manager f))))
           \<le> uplink (cumulativeStats (fst (run inst pf (cs @ cs') (new_manager f)))) \<and>
         downlink (cumulativeStats (fst (run inst pf cs (new_manager f))))
           \<le> downlink (cumulativeStats (fst (run inst pf (cs @ cs') (new_manager f)))) \<and>
         folds_once False (snd (run inst pf (cs @ cs') (new_manager f))) \<and>
         (status m = Connected \<and> process m = Some p \<and> getXrayPath inst = Inr path \<longrightarrow>
            cleanup inst w m =
              (m\<lparr>cumulativeStats := \<lparr>uplink = uplink (cumulativeStats m) + queryStats w ''uplink'',
                                     downlink = downlink (cumulativeStats m) + queryStats w ''downlink''\<rparr>,
                 process := None\<rparr>,
               [Query path API_PORT ''uplink'', Query path API_PORT ''downlink'',
                WriteFile STATS_PATH (StatsJson
                  \<lparr>uplink = uplink (cumulativeStats m) + queryStats w ''uplink'',
                   downlink = downlink (cumulativeStats m) + queryStats w ''downlink''\<rparr>),
                Kill p] @ unsetSystemProxy w m @ [Unlink CONFIG_PATH]))"
proof -
  from assms have "\<forall>c\<in>set cs'. call_nonneg c" by simp
  from run_monotone [OF this, of "fst (run inst pf cs (new_manager f))" inst pf]
  have mono: "uplink (cumulativeStats (fst (run inst pf cs (new_manager f))))
           \<le> uplink (cumulativeStats (fst (run inst pf (cs @ cs') (new_manager f)))) \<and>
         downlink (cumulativeStats (fst (run inst pf cs (new_manager f))))
           \<le> downlink (cumulativeStats (fst (run inst pf (cs @ cs') (new_manager f))))"
    by (simp add: run_append)
  have "session_inv inst (new_manager f)"
    by (simp add: session_inv_def new_manager_def)
  from folds_once_run [OF this, of pf "cs @ cs'"]
  have once: "folds_once False (snd (run inst pf (cs @ cs') (new_manager f)))"
    by (simp add: new_manager_def)
  from mono once cleanup_connected [of m p inst path w] show ?thesis by blast
qed

lemma sample_world_nonneg: "world_nonneg ready_world"
  by (simp add: world_nonneg_def reply_nonneg_def ready_world_def parseInt10_def is_ws_def
        is_digit_def digits_val_def Let_def)

subsection \<open>A sample cycle\<close>

lemma sample_connect_ready:
  "connect_failure sample_install sample_platform ready_world
      ''vless://id@example.com?security=tls#Label'' = None"
proof -
  obtain cfg where "generateConfig sample_platform ''vless://id@example.com?security=tls#Label'' = Inr cfg"
    using sample_generateConfig
    by (cases "generateConfig sample_platform ''vless://id@example.com?security=tls#Label''") auto
  then show ?thesis
    using sample_has_marker sample_ready
    by (simp add: connect_failure_def sample_getXrayPath)
qed

lemma sample_cycle:
  "cumulativeStats (fst (run sample_install sample_platform
       [Connect ''vless://id@example.com?security=tls#Label'' ready_world ready_world ready_world,
        GetTrafficStats ready_world, Disconnect ready_world] (new_manager NoFile)))
     = \<lparr>uplink = 1200, downlink = 3400\<rparr>"
proof -
  from connect_succeeded [OF sample_connect_ready, where ?w0.0 = ready_world
      and ?w2.0 = ready_world and m = "new_manager NoFile"]
  obtain m1 es p where
    c: "connect sample_install sample_platform ready_world ready_world ready_world
          ''vless://id@example.com?security=tls#Label'' (new_manager NoFile) = (Ok, m1, es)"
    and st: "status m1 = Connected" "process m1 = Some p"
    and cu: "cumulativeStats m1
               = cumulativeStats (fst (disconnect_previous sample_install ready_world (new_manager NoFile)))"
    by blast
  from cu have z: "cumulativeStats m1 = \<lparr>uplink = 0, downlink = 0\<rparr>"
    by (simp add: disconnect_previous_def new_manager_def)
  have "cumulativeStats (fst (snd (disconnect sample_install ready_world m1)))
          = \<lparr>uplink = 1200, downlink = 3400\<rparr>"
    using st z sample_queryStats
    by (simp add: disconnect_cumulative cleanup_cumulative
          saveCumulativeFromSession_found [OF sample_getXrayPath])
  then show ?thesis
    by (cases "disconnect sample_install ready_world m1") (simp add: c)
qed

theorem cumulative_monotone_fold_once_witness:
  "uplink (cumulativeStats (fst (run sample_install sample_platform
       [Connect ''vless://id@example.com?security=tls#Label'' ready_world ready_world ready_world,
        GetTrafficStats ready_world, Disconnect ready_world] (new_manager NoFile))))
     \<le> uplink (cumulativeStats (fst (run sample_install sample_platform
       ([Connect ''vless://id@example.com?security=tls#Label'' ready_world ready_world ready_world,
         GetTrafficStats ready_world, Disconnect ready_world]
        @ [Disconnect ready_world,
           Connect ''vless://id@example.com?security=tls#Label'' ready_world failing_world ready_world])
       (new_manager NoFile)))) \<and>
   folds_once False (snd (run sample_install sample_platform
       ([Connect ''vless://id@example.com?security=tls#Label'' ready_world ready_world ready_world,
         GetTrafficStats ready_world, Disconnect ready_world]
        @ [Disconnect ready_world,
           Connect ''vless://id@example.com?security=tls#Label'' ready_world failing_world ready_world])
       (new_manager NoFile))) \<and>
   cumulativeStats (fst (run sample_install sample_platform
       [Connect ''vless://id@example.com?security=tls#Label'' ready_world ready_world ready_world,
        GetTrafficStats ready_world, Disconnect ready_world] (new_manager NoFile)))
     = \<lparr>uplink = 1200, downlink = 3400\<rparr>"
proof -
  have h: "\<forall>c\<in>set ([Connect ''vless://id@example.com?security=tls#Label'' ready_world ready_world ready_world,
         GetTrafficStats ready_world, Disconnect ready_world]
        @ [Disconnect ready_world,
           Connect ''vless://id@example.com?security=tls#Label'' ready_world failing_world ready_world]).
         call_nonneg c"
    by (simp add: sample_world_nonneg)
  from cumulative_monotone_fold_once [OF h, of sample_install sample_platform NoFile]
  show ?thesis using sample_cycle by blast
qed

end
